theory Spec2Isabelle
  imports Main "HOL-Library.Sublist"
begin

section \<open>Strings\<close>

text \<open>
  A JavaScript string is a sequence of 16-bit code units. The model keeps the code
  units 0 to 255 (ASCII and Latin-1), one \<^typ>\<open>char\<close> each: on them every
  function below is exactly the JavaScript one. Text with other code units lies
  outside the model.
\<close>

definition upper_units :: string where
  \<comment> \<open>the code units below 256 that \<open>toLowerCase\<close> changes: A to Z, and the Latin-1
      capitals U+00C0 to U+00DE without the multiplication sign U+00D7\<close>
  "upper_units = ''ABCDEFGHIJKLMNOPQRSTUVWXYZ'' @
     [CHR 0xC0, CHR 0xC1, CHR 0xC2, CHR 0xC3, CHR 0xC4, CHR 0xC5, CHR 0xC6, CHR 0xC7,
      CHR 0xC8, CHR 0xC9, CHR 0xCA, CHR 0xCB, CHR 0xCC, CHR 0xCD, CHR 0xCE, CHR 0xCF,
      CHR 0xD0, CHR 0xD1, CHR 0xD2, CHR 0xD3, CHR 0xD4, CHR 0xD5, CHR 0xD6, CHR 0xD8,
      CHR 0xD9, CHR 0xDA, CHR 0xDB, CHR 0xDC, CHR 0xDD, CHR 0xDE]"

definition lower_units :: string where
  "lower_units = ''abcdefghijklmnopqrstuvwxyz'' @
     [CHR 0xE0, CHR 0xE1, CHR 0xE2, CHR 0xE3, CHR 0xE4, CHR 0xE5, CHR 0xE6, CHR 0xE7,
      CHR 0xE8, CHR 0xE9, CHR 0xEA, CHR 0xEB, CHR 0xEC, CHR 0xED, CHR 0xEE, CHR 0xEF,
      CHR 0xF0, CHR 0xF1, CHR 0xF2, CHR 0xF3, CHR 0xF4, CHR 0xF5, CHR 0xF6, CHR 0xF8,
      CHR 0xF9, CHR 0xFA, CHR 0xFB, CHR 0xFC, CHR 0xFD, CHR 0xFE]"

definition lowerUnit :: "char \<Rightarrow> char" where
  \<comment> \<open>\<open>String.prototype.toLowerCase\<close> on one code unit below 256\<close>
  "lowerUnit c = (case map_of (zip upper_units lower_units) c of Some l \<Rightarrow> l | None \<Rightarrow> c)"

definition toLowerCase :: "string \<Rightarrow> string" where
  "toLowerCase s = map lowerUnit s"

fun str_includes :: "string \<Rightarrow> string \<Rightarrow> bool" where
  \<comment> \<open>\<open>s.includes(q)\<close>: \<open>q\<close> occurs in \<open>s\<close> as a contiguous run of code units.\<close>
  "str_includes [] q = (q = [])"
| "str_includes (c # s) q = (prefix q (c # s) \<or> str_includes s q)"

definition digit :: "nat \<Rightarrow> char" where
  \<comment> \<open>used below 10 only\<close>
  "digit d = ''0123456789'' ! d"

function show_nat :: "nat \<Rightarrow> string" where
  \<comment> \<open>a length in a template literal: the decimal numeral\<close>
  "show_nat n = (if n < 10 then [digit n] else show_nat (n div 10) @ [digit (n mod 10)])"
  by pat_completeness auto
termination
  by (relation "measure id") auto

declare show_nat.simps [simp del]

section \<open>Plain objects used as dictionaries\<close>

text \<open>
  \<open>this.memory.entities\<close> is a plain object. Its own properties are kept as an
  association list in the order \<open>Object.entries\<close>, \<open>Object.keys\<close>,
  \<open>Object.values\<close> and \<open>JSON.stringify\<close> visit them: array indices (canonical
  numerals up to 4294967294) first, ascending, then all other keys in the order of
  their creation.
\<close>

type_synonym 'v props = "(string \<times> 'v) list"

definition is_digit :: "char \<Rightarrow> bool" where
  "is_digit c = (48 \<le> (of_char c :: nat) \<and> (of_char c :: nat) \<le> 57)"

definition digit_val :: "char \<Rightarrow> nat" where
  "digit_val c = (of_char c :: nat) - 48"

definition numeral_val :: "string \<Rightarrow> nat" where
  "numeral_val s = foldl (\<lambda>a c. 10 * a + digit_val c) 0 s"

definition array_index :: "string \<Rightarrow> nat option" where
  \<comment> \<open>the number a key denotes when the key is an array index\<close>
  "array_index k =
     (if k \<noteq> [] \<and> list_all is_digit k \<and> (hd k \<noteq> CHR ''0'' \<or> length k = 1)
          \<and> length k \<le> 10 \<and> numeral_val k \<le> 4294967294
      then Some (numeral_val k) else None)"

definition has_own :: "'v props \<Rightarrow> string \<Rightarrow> bool" where
  "has_own ps k = (map_of ps k \<noteq> None)"

fun insert_index :: "nat \<Rightarrow> string \<Rightarrow> 'v \<Rightarrow> 'v props \<Rightarrow> 'v props" where
  "insert_index n k v [] = [(k, v)]"
| "insert_index n k v ((k', v') # ps) =
     (case array_index k' of
        Some m \<Rightarrow> if m < n then (k', v') # insert_index n k v ps else (k, v) # (k', v') # ps
      | None \<Rightarrow> (k, v) # (k', v') # ps)"

fun replace_own :: "'v props \<Rightarrow> string \<Rightarrow> 'v \<Rightarrow> 'v props" where
  "replace_own [] k v = []"
| "replace_own ((k', v') # ps) k v =
     (if k' = k then (k', v) # ps else (k', v') # replace_own ps k v)"

definition define_own :: "'v props \<Rightarrow> string \<Rightarrow> 'v \<Rightarrow> 'v props" where
  \<comment> \<open>writing an own data property: an existing key keeps its place, a new key is
      placed as the enumeration order says\<close>
  "define_own ps k v =
     (if has_own ps k then replace_own ps k v
      else (case array_index k of
              Some n \<Rightarrow> insert_index n k v ps
            | None \<Rightarrow> ps @ [(k, v)]))"

definition spread :: "'v props \<Rightarrow> 'v props \<Rightarrow> 'v props" where
  \<comment> \<open>\<open>{ ...source }\<close> continuing an object literal that has the properties \<open>target\<close>
      so far: the own properties of \<open>source\<close> are defined one after the other\<close>
  "spread target source = foldl (\<lambda>ps kv. define_own ps (fst kv) (snd kv)) target source"

section \<open>JSON values\<close>

text \<open>
  The values that \<open>JSON.parse\<close> builds and \<open>JSON.stringify\<close> writes. An object is
  the list of its own properties in enumeration order. A number is kept as a decimal
  numeral; \<open>JSON.stringify\<close> is modelled as writing that numeral.
\<close>

datatype json =
    JNull
  | JBool bool
  | JNum string               \<comment> \<open>a number, kept as its decimal numeral\<close>
  | JStr string
  | JArr "json list"
  | JObj "json props"

section \<open>The knowledge graph\<close>

record entity =
  name :: string
  entityType :: string
  observations :: "string list"
  createdAt :: string

text \<open>
  An entity is built by the code field by field (\<open>{ name, entityType, observations,
  createdAt }\<close>). A relation is not: the code stores \<open>{ ...relation, createdAt }\<close>,
  every own property of the object that the request carries, in the order of the
  request, and \<open>createdAt\<close>. A stored relation is therefore an object with whatever
  properties it was given.
\<close>

type_synonym relation = "json props"

text \<open>
  The \<open>entities\<close> object: its own properties, and the object that an assignment to
  the key \<open>__proto__\<close> has installed as its prototype (\<open>None\<close>: the prototype is
  \<open>Object.prototype\<close>, as for \<open>{}\<close> and for every object \<open>JSON.parse\<close> builds).
\<close>

record entities_object =
  own :: "entity props"
  proto :: "entity option"

datatype empty_object = EmptyObject

record graph =
  entities :: entities_object
  relations :: "relation list"
  root_observations :: empty_object

definition empty_graph :: graph where
  \<comment> \<open>\<open>{ entities: {}, relations: [], observations: {} }\<close>\<close>
  "empty_graph =
     \<lparr>entities = \<lparr>own = [], proto = None\<rparr>, relations = [], root_observations = EmptyObject\<rparr>"

definition Object_prototype_keys :: "string list" where
  \<comment> \<open>the properties every plain object inherits from \<open>Object.prototype\<close>\<close>
  "Object_prototype_keys =
     [''constructor'', ''__defineGetter__'', ''__defineSetter__'', ''hasOwnProperty'',
      ''__lookupGetter__'', ''__lookupSetter__'', ''isPrototypeOf'',
      ''propertyIsEnumerable'', ''toString'', ''valueOf'', ''__proto__'',
      ''toLocaleString'']"

datatype looked_up =
    OwnEntity entity          \<comment> \<open>an own property: an entity\<close>
  | ProtoEntity entity        \<comment> \<open>\<open>__proto__\<close> read through the accessor: the installed prototype\<close>
  | InheritedString string    \<comment> \<open>a string field of the installed prototype\<close>
  | InheritedArray "string list" \<comment> \<open>the \<open>observations\<close> array of the installed prototype\<close>
  | Builtin                   \<comment> \<open>a function of \<open>Object.prototype\<close>, or \<open>Object.prototype\<close> itself\<close>
  | Undefined

definition inherited_builtin :: "string \<Rightarrow> looked_up" where
  "inherited_builtin k = (if k \<in> set Object_prototype_keys then Builtin else Undefined)"

definition get_property :: "entities_object \<Rightarrow> string \<Rightarrow> looked_up" where
  \<comment> \<open>\<open>this.memory.entities[k]\<close>: own properties first, then the prototype chain\<close>
  "get_property obj k =
     (case map_of (own obj) k of
        Some e \<Rightarrow> OwnEntity e
      | None \<Rightarrow>
          (case proto obj of
             None \<Rightarrow> inherited_builtin k
           | Some p \<Rightarrow>
               if k = ''name'' then InheritedString (name p)
               else if k = ''entityType'' then InheritedString (entityType p)
               else if k = ''observations'' then InheritedArray (observations p)
               else if k = ''createdAt'' then InheritedString (createdAt p)
               else if k = ''__proto__'' then ProtoEntity p
               else inherited_builtin k))"

definition set_property :: "entities_object \<Rightarrow> string \<Rightarrow> entity \<Rightarrow> entities_object" where
  \<comment> \<open>\<open>this.memory.entities[k] = e\<close>: an own property is written, except that the key
      \<open>__proto__\<close>, when it is not an own property, reaches the setter of
      \<open>Object.prototype\<close> and replaces the prototype\<close>
  "set_property obj k e =
     (if \<not> has_own (own obj) k \<and> k = ''__proto__'' then obj\<lparr>proto := Some e\<rparr>
      else obj\<lparr>own := define_own (own obj) k e\<rparr>)"

section \<open>JSON text\<close>

text \<open>
  \<open>JSON.stringify\<close> and \<open>JSON.parse\<close> are functions of the language, not of the
  program. \<open>serialize\<close> follows the definition of \<open>JSON.stringify(value, null, 2)\<close>
  in the language standard, on the values of type \<^typ>\<open>json\<close>.
\<close>

definition hex_digit :: "nat \<Rightarrow> char" where
  \<comment> \<open>used below 16 only\<close>
  "hex_digit d = ''0123456789abcdef'' ! d"

definition escape_unit :: "char \<Rightarrow> string" where
  \<comment> \<open>one code unit inside a JSON string literal, as \<open>JSON.stringify\<close> writes it\<close>
  "escape_unit c =
     (let n = (of_char c :: nat)
      in if c = CHR 0x08 then [CHR 0x5C, CHR ''b'']
         else if c = CHR 0x09 then [CHR 0x5C, CHR ''t'']
         else if c = CHR 0x0A then [CHR 0x5C, CHR ''n'']
         else if c = CHR 0x0C then [CHR 0x5C, CHR ''f'']
         else if c = CHR 0x0D then [CHR 0x5C, CHR ''r'']
         else if c = CHR 0x22 then [CHR 0x5C, CHR 0x22]
         else if c = CHR 0x5C then [CHR 0x5C, CHR 0x5C]
         else if n < 32 then [CHR 0x5C, CHR ''u'', CHR ''0'', CHR ''0'', hex_digit (n div 16), hex_digit (n mod 16)]
         else [c])"

definition quote_string :: "string \<Rightarrow> string" where
  "quote_string s = CHR 0x22 # concat (map escape_unit s) @ [CHR 0x22]"

fun join :: "string \<Rightarrow> string list \<Rightarrow> string" where
  "join sep [] = []"
| "join sep [x] = x"
| "join sep (x # y # ys) = x @ sep @ join sep (y # ys)"

definition gap :: string where
  "gap = ''  ''"

fun serialize :: "string \<Rightarrow> json \<Rightarrow> string" where
  \<comment> \<open>\<open>JSON.stringify(v, null, 2)\<close> at the indentation \<open>ind\<close>\<close>
  "serialize ind JNull = ''null''"
| "serialize ind (JBool b) = (if b then ''true'' else ''false'')"
| "serialize ind (JNum n) = n"
| "serialize ind (JStr s) = quote_string s"
| "serialize ind (JArr vs) =
     (if vs = [] then ''[]''
      else ''['' @ [CHR 0x0A] @ (ind @ gap)
           @ join ('','' @ [CHR 0x0A] @ (ind @ gap)) (map (serialize (ind @ gap)) vs)
           @ [CHR 0x0A] @ ind @ '']'')"
| "serialize ind (JObj kvs) =
     (if kvs = [] then ''{}''
      else ''{'' @ [CHR 0x0A] @ (ind @ gap)
           @ join ('','' @ [CHR 0x0A] @ (ind @ gap))
               (map (\<lambda>kv. quote_string (fst kv) @ '': '' @ serialize (ind @ gap) (snd kv)) kvs)
           @ [CHR 0x0A] @ ind @ ''}'')"

definition JSON_stringify :: "json \<Rightarrow> string" where
  "JSON_stringify v = serialize [] v"

definition json_of_entity :: "entity \<Rightarrow> json" where
  "json_of_entity e =
     JObj [(''name'', JStr (name e)), (''entityType'', JStr (entityType e)),
           (''observations'', JArr (map JStr (observations e))),
           (''createdAt'', JStr (createdAt e))]"

definition json_of_relation :: "relation \<Rightarrow> json" where
  \<comment> \<open>a stored relation is written with all the properties it has\<close>
  "json_of_relation r = JObj r"

definition json_of_graph :: "graph \<Rightarrow> json" where
  \<comment> \<open>what \<open>JSON.stringify\<close> sees of \<open>this.memory\<close>: own enumerable properties only\<close>
  "json_of_graph g =
     JObj [(''entities'', JObj (map (\<lambda>kv. (fst kv, json_of_entity (snd kv))) (own (entities g)))),
           (''relations'', JArr (map json_of_relation (relations g))),
           (''observations'', JObj [])]"

section \<open>The server state, the file and the clock\<close>

datatype io_outcome =
    IoOk
  | IoError "string option"   \<comment> \<open>the call fails; a failed write leaves the file so\<close>

record world =
  memory :: graph                       \<comment> \<open>\<open>this.memory\<close>\<close>
  disk :: "string option"               \<comment> \<open>the text of \<open>this.memoryFile\<close>; \<open>None\<close>: no file\<close>
  io :: "nat \<Rightarrow> io_outcome"    \<comment> \<open>what happens to the k-th file-system call\<close>
  io_count :: nat
  clock :: "nat \<Rightarrow> string"    \<comment> \<open>what the k-th \<open>new Date().toISOString()\<close> returns\<close>
  ticks :: nat

datatype type_error =
    ReadOfUndefined string    \<comment> \<open>a property read or a destructuring of \<open>undefined\<close> or \<open>null\<close>\<close>
  | NotIterable string
  | NotAFunction string       \<comment> \<open>a call of a property that holds no function\<close>

datatype exn =
    Error string              \<comment> \<open>\<open>new Error(message)\<close>\<close>
  | TypeError type_error
  | SystemError               \<comment> \<open>a rejected \<open>fs\<close> call\<close>
  | SyntaxError               \<comment> \<open>thrown by \<open>JSON.parse\<close>\<close>
  | ReferenceError string     \<comment> \<open>a read of a variable that is not in scope\<close>

type_synonym 'a action = "world \<Rightarrow> (exn + 'a) \<times> world"

definition return :: "'a \<Rightarrow> 'a action" where
  "return a w = (Inr a, w)"

definition throw :: "exn \<Rightarrow> 'a action" where
  "throw e w = (Inl e, w)"

definition bind :: "'a action \<Rightarrow> ('a \<Rightarrow> 'b action) \<Rightarrow> 'b action" where
  "bind m f w = (case m w of (Inl e, w') \<Rightarrow> (Inl e, w') | (Inr a, w') \<Rightarrow> f a w')"

definition try_catch :: "'a action \<Rightarrow> (exn \<Rightarrow> 'a action) \<Rightarrow> 'a action" where
  "try_catch m h w = (case m w of (Inl e, w') \<Rightarrow> h e w' | (Inr a, w') \<Rightarrow> (Inr a, w'))"

definition now :: "string action" where
  "now w = (Inr (clock w (ticks w)), w\<lparr>ticks := Suc (ticks w)\<rparr>)"

definition readFile :: "string action" where
  "readFile w =
     (let w' = w\<lparr>io_count := Suc (io_count w)\<rparr>
      in case io w (io_count w) of
           IoError left \<Rightarrow> (Inl SystemError, w')
         | IoOk \<Rightarrow> (case disk w of None \<Rightarrow> (Inl SystemError, w') | Some text \<Rightarrow> (Inr text, w')))"

definition writeFile :: "string \<Rightarrow> unit action" where
  "writeFile text w =
     (let w' = w\<lparr>io_count := Suc (io_count w)\<rparr>
      in case io w (io_count w) of
           IoError left \<Rightarrow> (Inl SystemError, w'\<lparr>disk := left\<rparr>)
         | IoOk \<Rightarrow> (Inr (), w'\<lparr>disk := Some text\<rparr>))"

definition saveMemory :: "unit action" where
  "saveMemory =
     try_catch (\<lambda>w. writeFile (JSON_stringify (json_of_graph (memory w))) w)
       (\<lambda>error. return ())"

section \<open>The operations of CloudMemoryServer\<close>

text \<open>
  The arguments are typed as the input schemas of the tools say. What the code leaves
  open stays open: the argument object or one of its fields may be missing, the
  observations of an entity to create may be absent or falsy, and a relation to create
  is an object with any properties in any order. The arrays of a request belong to that
  request alone, so a push to the observations of one entity changes no other value.
\<close>

record entity_input =
  in_name :: string
  in_entityType :: string
  in_observations :: "string list option"   \<comment> \<open>\<open>None\<close>: the field is absent or falsy\<close>

type_synonym relation_input = "json props"

record observation_input =
  entityName :: string
  contents :: "string list"

definition new_entity :: "entity_input \<Rightarrow> string \<Rightarrow> entity" where
  "new_entity e t =
     \<lparr>name = in_name e, entityType = in_entityType e,
      observations = (case in_observations e of None \<Rightarrow> [] | Some os \<Rightarrow> os),
      createdAt = t\<rparr>"

definition set_entity :: "string \<Rightarrow> entity \<Rightarrow> unit action" where
  "set_entity k e w =
     (Inr (), w\<lparr>memory := (memory w)\<lparr>entities := set_property (entities (memory w)) k e\<rparr>\<rparr>)"

fun createEntities_loop :: "entity_input list \<Rightarrow> unit action" where
  "createEntities_loop [] = return ()"
| "createEntities_loop (e # es) =
     bind now (\<lambda>t. bind (set_entity (in_name e) (new_entity e t)) (\<lambda>u. createEntities_loop es))"

definition createEntities :: "entity_input list option \<Rightarrow> string action" where
  "createEntities arg =
     (case arg of
        None \<Rightarrow> throw (TypeError (NotIterable ''entities''))
      | Some es \<Rightarrow>
          bind (createEntities_loop es) (\<lambda>u. bind saveMemory (\<lambda>u.
            return (''Created '' @ show_nat (length es) @ '' entities successfully''))))"

definition new_relation :: "relation_input \<Rightarrow> string \<Rightarrow> relation" where
  \<comment> \<open>\<open>{ ...relation, createdAt: new Date().toISOString() }\<close>: a \<open>createdAt\<close> of the
      request keeps its place and loses its value\<close>
  "new_relation r t = define_own (spread [] r) ''createdAt'' (JStr t)"

definition push_relation :: "relation \<Rightarrow> unit action" where
  "push_relation r w = (Inr (), w\<lparr>memory := (memory w)\<lparr>relations := relations (memory w) @ [r]\<rparr>\<rparr>)"

fun createRelations_loop :: "relation_input list \<Rightarrow> unit action" where
  "createRelations_loop [] = return ()"
| "createRelations_loop (r # rs) =
     bind now (\<lambda>t. bind (push_relation (new_relation r t)) (\<lambda>u. createRelations_loop rs))"

definition createRelations :: "relation_input list option \<Rightarrow> string action" where
  "createRelations arg =
     (case arg of
        None \<Rightarrow> throw (TypeError (NotIterable ''relations''))
      | Some rs \<Rightarrow>
          bind (createRelations_loop rs) (\<lambda>u. bind saveMemory (\<lambda>u.
            return (''Created '' @ show_nat (length rs) @ '' relations successfully''))))"

definition push_observations :: "observation_input \<Rightarrow> unit action" where
  \<comment> \<open>\<open>if (entities[entityName]) entities[entityName].observations.push(...contents)\<close>\<close>
  "push_observations obs w =
     (let obj = entities (memory w)
      in case get_property obj (entityName obs) of
           OwnEntity e \<Rightarrow>
             (Inr (), w\<lparr>memory := (memory w)\<lparr>entities :=
                obj\<lparr>own := replace_own (own obj) (entityName obs)
                               (e\<lparr>observations := observations e @ contents obs\<rparr>)\<rparr>\<rparr>\<rparr>)
         | ProtoEntity p \<Rightarrow>
             (Inr (), w\<lparr>memory := (memory w)\<lparr>entities :=
                obj\<lparr>proto := Some (p\<lparr>observations := observations p @ contents obs\<rparr>)\<rparr>\<rparr>\<rparr>)
         | InheritedString s \<Rightarrow>
             if s = [] then (Inr (), w) else (Inl (TypeError (ReadOfUndefined ''push'')), w)
         | InheritedArray a \<Rightarrow> (Inl (TypeError (ReadOfUndefined ''push'')), w)
         | Builtin \<Rightarrow> (Inl (TypeError (ReadOfUndefined ''push'')), w)
         | Undefined \<Rightarrow> (Inr (), w))"

fun addObservations_loop :: "observation_input list \<Rightarrow> unit action" where
  "addObservations_loop [] = return ()"
| "addObservations_loop (obs # rest) =
     bind (push_observations obs) (\<lambda>u. addObservations_loop rest)"

definition addObservations :: "observation_input list option \<Rightarrow> string action" where
  "addObservations arg =
     (case arg of
        None \<Rightarrow> throw (TypeError (NotIterable ''observations''))
      | Some os \<Rightarrow>
          bind (addObservations_loop os) (\<lambda>u. bind saveMemory (\<lambda>u.
            return (''Added observations to '' @ show_nat (length os) @ '' entities successfully''))))"

definition Object_entries :: "entities_object \<Rightarrow> (string \<times> entity) list" where
  "Object_entries obj = own obj"

definition Object_keys :: "entities_object \<Rightarrow> string list" where
  "Object_keys obj = map fst (own obj)"

definition Object_values :: "entities_object \<Rightarrow> entity list" where
  "Object_values obj = map snd (own obj)"

definition entity_matches :: "string \<Rightarrow> string \<times> entity \<Rightarrow> bool" where
  "entity_matches lowerQuery kv =
     (str_includes (toLowerCase (fst kv)) lowerQuery
      \<or> str_includes (toLowerCase (entityType (snd kv))) lowerQuery
      \<or> list_ex (\<lambda>obs. str_includes (toLowerCase obs) lowerQuery) (observations (snd kv)))"

definition lowered :: "relation \<Rightarrow> string \<Rightarrow> type_error + string" where
  \<comment> \<open>\<open>relation.k.toLowerCase()\<close> for \<open>k\<close> one of \<open>from\<close>, \<open>to\<close>, \<open>relationType\<close>,
      which no object inherits: the call throws unless the property holds a string\<close>
  "lowered r k =
     (case map_of r k of
        None \<Rightarrow> Inl (ReadOfUndefined ''toLowerCase'')
      | Some JNull \<Rightarrow> Inl (ReadOfUndefined ''toLowerCase'')
      | Some (JStr s) \<Rightarrow> Inr (toLowerCase s)
      | Some v \<Rightarrow> Inl (NotAFunction ''toLowerCase''))"

definition relation_matches :: "string \<Rightarrow> relation \<Rightarrow> type_error + bool" where
  \<comment> \<open>the three tests joined by \<open>||\<close>: a later one runs only when the earlier ones
      are false\<close>
  "relation_matches lowerQuery r =
     (case lowered r ''from'' of
        Inl e \<Rightarrow> Inl e
      | Inr a \<Rightarrow>
          if str_includes a lowerQuery then Inr True
          else (case lowered r ''to'' of
                  Inl e \<Rightarrow> Inl e
                | Inr b \<Rightarrow>
                    if str_includes b lowerQuery then Inr True
                    else (case lowered r ''relationType'' of
                            Inl e \<Rightarrow> Inl e
                          | Inr c \<Rightarrow> Inr (str_includes c lowerQuery))))"

definition entity_result :: "entity \<Rightarrow> json" where
  \<comment> \<open>\<open>{ type: 'entity', ...entity }\<close>\<close>
  "entity_result e =
     JObj [(''type'', JStr ''entity''), (''name'', JStr (name e)),
           (''entityType'', JStr (entityType e)),
           (''observations'', JArr (map JStr (observations e))),
           (''createdAt'', JStr (createdAt e))]"

definition relation_result :: "relation \<Rightarrow> json" where
  \<comment> \<open>\<open>{ type: 'relation', ...relation }\<close>\<close>
  "relation_result r = JObj (spread [(''type'', JStr ''relation'')] r)"

fun search_entities :: "string \<Rightarrow> (string \<times> entity) list \<Rightarrow> json list \<Rightarrow> json list" where
  "search_entities lowerQuery [] results = results"
| "search_entities lowerQuery (kv # rest) results =
     search_entities lowerQuery rest
       (if entity_matches lowerQuery kv then results @ [entity_result (snd kv)] else results)"

fun search_relations :: "string \<Rightarrow> relation list \<Rightarrow> json list \<Rightarrow> type_error + json list" where
  "search_relations lowerQuery [] results = Inr results"
| "search_relations lowerQuery (r # rest) results =
     (case relation_matches lowerQuery r of
        Inl e \<Rightarrow> Inl e
      | Inr hit \<Rightarrow>
          search_relations lowerQuery rest
            (if hit then results @ [relation_result r] else results))"

definition found_text :: "json list \<Rightarrow> string" where
  "found_text results =
     ''Found '' @ show_nat (length results) @ '' matching nodes:'' @ [CHR 0x0A, CHR 0x0A]
       @ JSON_stringify (JArr results)"

definition searchNodes :: "string option \<Rightarrow> string action" where
  "searchNodes arg w =
     (case arg of
        None \<Rightarrow> (Inl (TypeError (ReadOfUndefined ''toLowerCase'')), w)
      | Some query \<Rightarrow>
          (let lowerQuery = toLowerCase query;
               found = search_entities lowerQuery (Object_entries (entities (memory w))) []
           in case search_relations lowerQuery (relations (memory w)) found of
                Inl e \<Rightarrow> (Inl (TypeError e), w)
              | Inr results \<Rightarrow> (Inr (found_text results), w)))"

definition graph_stats :: "graph \<Rightarrow> json" where
  "graph_stats g =
     JObj [(''entities'', JNum (show_nat (length (Object_keys (entities g))))),
           (''relations'', JNum (show_nat (length (relations g)))),
           (''totalObservations'',
              JNum (show_nat (foldl (\<lambda>sum entity. sum + length (observations entity)) 0
                                (Object_values (entities g)))))]"

definition graph_text :: "graph \<Rightarrow> string" where
  "graph_text g =
     ''Knowledge Graph Contents:'' @ [CHR 0x0A, CHR 0x0A] @ ''Statistics:'' @ [CHR 0x0A]
       @ JSON_stringify (graph_stats g) @ [CHR 0x0A, CHR 0x0A] @ ''Full Graph:'' @ [CHR 0x0A]
       @ JSON_stringify (json_of_graph g)"

definition readGraph :: "string action" where
  "readGraph w = (Inr (graph_text (memory w)), w)"

section \<open>The dispatcher of CloudMemoryServer\<close>

text \<open>
  The handlers that the program registers with the protocol server of the SDK. The
  SDK itself, which reads the requests and calls the handlers, is no part of the
  program and is not modelled: a request reaches a handler as a value of the request
  type.
\<close>

record tool_arguments =
  arg_entities :: "entity_input list option"
  arg_relations :: "relation_input list option"
  arg_observations :: "observation_input list option"
  arg_query :: "string option"

record request =
  tool_name :: string                       \<comment> \<open>\<open>request.params.name\<close>\<close>
  arguments :: "tool_arguments option"      \<comment> \<open>\<open>request.params.arguments\<close>, which may be missing\<close>

datatype response =
    Content string            \<comment> \<open>\<open>{ content: [{ type: 'text', text }] }\<close>\<close>
  | ErrorMessage string       \<comment> \<open>\<open>{ error: { message } }\<close>\<close>
  | ToolList                  \<comment> \<open>the fixed answer to \<open>tools/list\<close>\<close>
  | ServerInfo                \<comment> \<open>the fixed answer to \<open>initialize\<close>\<close>
  | ResourceText string string \<comment> \<open>\<open>{ contents: [{ uri, mimeType, text }] }\<close>\<close>

definition message :: "(type_error \<Rightarrow> string) \<Rightarrow> exn \<Rightarrow> string" where
  \<comment> \<open>\<open>error.message\<close>; the wording of the engine's own errors is a parameter, and
      a file error never reaches a dispatcher (\<open>saveMemory\<close> and \<open>loadMemory\<close>
      catch it)\<close>
  "message wording e =
     (case e of
        Error m \<Rightarrow> m
      | TypeError t \<Rightarrow> wording t
      | SystemError \<Rightarrow> []
      | SyntaxError \<Rightarrow> []
      | ReferenceError x \<Rightarrow> x @ '' is not defined'')"

definition with_arguments :: "request \<Rightarrow> string \<Rightarrow> (tool_arguments \<Rightarrow> 'a action) \<Rightarrow> 'a action" where
  \<comment> \<open>\<open>args.field\<close>: reading a field of missing arguments throws\<close>
  "with_arguments req field f =
     (case arguments req of
        None \<Rightarrow> throw (TypeError (ReadOfUndefined field))
      | Some args \<Rightarrow> f args)"

definition tool_switch :: "request \<Rightarrow> string action" where
  "tool_switch req =
     (if tool_name req = ''create_entities''
        then with_arguments req ''entities'' (\<lambda>args. createEntities (arg_entities args))
      else if tool_name req = ''create_relations''
        then with_arguments req ''relations'' (\<lambda>args. createRelations (arg_relations args))
      else if tool_name req = ''add_observations''
        then with_arguments req ''observations'' (\<lambda>args. addObservations (arg_observations args))
      else if tool_name req = ''search_nodes''
        then with_arguments req ''query'' (\<lambda>args. searchNodes (arg_query args))
      else if tool_name req = ''read_graph''
        then readGraph
      else throw (Error (''Unknown tool: '' @ tool_name req)))"

definition callTool :: "(type_error \<Rightarrow> string) \<Rightarrow> request \<Rightarrow> response action" where
  \<comment> \<open>the handler of \<open>CallToolRequestSchema\<close>\<close>
  "callTool wording req =
     try_catch (bind (tool_switch req) (\<lambda>result. return (Content result)))
       (\<lambda>error. return (Content (''Error executing '' @ tool_name req @ '': ''
                                     @ message wording error)))"

definition readResource :: "string \<Rightarrow> response action" where
  \<comment> \<open>the handler of \<open>ReadResourceRequestSchema\<close>\<close>
  "readResource uri w =
     (if uri = ''memory://graph''
      then (Inr (ResourceText uri (JSON_stringify (json_of_graph (memory w)))), w)
      else (Inl (Error (''Unknown resource: '' @ uri)), w))"

section \<open>SimpleMemoryServer\<close>

definition Simple_createEntities :: "entity_input list option \<Rightarrow> response action" where
  "Simple_createEntities arg =
     (case arg of
        None \<Rightarrow> throw (TypeError (NotIterable ''entities''))
      | Some es \<Rightarrow>
          bind (createEntities_loop es) (\<lambda>u. bind saveMemory (\<lambda>u.
            return (Content (''Created '' @ show_nat (length es) @ '' entities successfully'')))))"

definition Simple_searchNodes :: "string option \<Rightarrow> response action" where
  "Simple_searchNodes arg w =
     (case arg of
        None \<Rightarrow> (Inl (TypeError (ReadOfUndefined ''toLowerCase'')), w)
      | Some query \<Rightarrow>
          (let lowerQuery = toLowerCase query;
               results = search_entities lowerQuery (Object_entries (entities (memory w))) []
           in (Inr (Content (found_text results)), w)))"

definition Simple_readGraph :: "response action" where
  "Simple_readGraph w = (Inr (Content (graph_text (memory w))), w)"

record rpc_request =
  rpc_method :: string
  rpc_params :: "request option"

definition handleToolCall :: "request option \<Rightarrow> response action" where
  "handleToolCall ps =
     (case ps of
        None \<Rightarrow> throw (TypeError (ReadOfUndefined ''name''))
      | Some req \<Rightarrow>
          if tool_name req = ''create_entities''
            then with_arguments req ''entities'' (\<lambda>args. Simple_createEntities (arg_entities args))
          else if tool_name req = ''search_nodes''
            then with_arguments req ''query'' (\<lambda>args. Simple_searchNodes (arg_query args))
          else if tool_name req = ''read_graph''
            then Simple_readGraph
          else throw (Error (''Unknown tool: '' @ tool_name req)))"

definition handleRequest :: "(type_error \<Rightarrow> string) \<Rightarrow> rpc_request \<Rightarrow> response action" where
  "handleRequest wording request =
     try_catch
       (if rpc_method request = ''tools/list'' then return ToolList
        else if rpc_method request = ''tools/call'' then handleToolCall (rpc_params request)
        else if rpc_method request = ''initialize'' then return ServerInfo
        else throw (Error (''Unknown method: '' @ rpc_method request)))
       (\<lambda>error. return (ErrorMessage (message wording error)))"

section \<open>Reading JSON text\<close>

text \<open>
  \<open>JSON.parse\<close>, after the JSON grammar of the language standard: the text is cut
  into tokens, the tokens are read by recursive descent.
\<close>

datatype token =
    TLBrace | TRBrace | TLBracket | TRBracket | TComma | TColon
  | TString string | TNumber string | TTrue | TFalse | TNull

datatype num_state = NMinus | NZero | NInt | NDot | NFrac | NExp | NExpSign | NExpDigits

definition num_step :: "num_state \<Rightarrow> char \<Rightarrow> num_state option" where
  \<comment> \<open>the JSON number grammar, one character at a time\<close>
  "num_step st c =
     (case st of
        NMinus \<Rightarrow> if c = CHR ''0'' then Some NZero else if is_digit c then Some NInt else None
      | NZero \<Rightarrow> if c = CHR ''.'' then Some NDot
                 else if c = CHR ''e'' \<or> c = CHR ''E'' then Some NExp else None
      | NInt \<Rightarrow> if is_digit c then Some NInt else if c = CHR ''.'' then Some NDot
                else if c = CHR ''e'' \<or> c = CHR ''E'' then Some NExp else None
      | NDot \<Rightarrow> if is_digit c then Some NFrac else None
      | NFrac \<Rightarrow> if is_digit c then Some NFrac
                 else if c = CHR ''e'' \<or> c = CHR ''E'' then Some NExp else None
      | NExp \<Rightarrow> if c = CHR ''+'' \<or> c = CHR ''-'' then Some NExpSign
                else if is_digit c then Some NExpDigits else None
      | NExpSign \<Rightarrow> if is_digit c then Some NExpDigits else None
      | NExpDigits \<Rightarrow> if is_digit c then Some NExpDigits else None)"

definition num_final :: "num_state \<Rightarrow> bool" where
  "num_final st = (st = NZero \<or> st = NInt \<or> st = NFrac \<or> st = NExpDigits)"

definition hex_val :: "char \<Rightarrow> nat option" where
  "hex_val c =
     (let n = (of_char c :: nat)
      in if 48 \<le> n \<and> n \<le> 57 then Some (n - 48)
         else if 97 \<le> n \<and> n \<le> 102 then Some (n - 87)
         else if 65 \<le> n \<and> n \<le> 70 then Some (n - 55)
         else None)"

definition is_whitespace :: "char \<Rightarrow> bool" where
  "is_whitespace c = (c = CHR '' '' \<or> c = CHR 0x09 \<or> c = CHR 0x0A \<or> c = CHR 0x0D)"

datatype mode =
    Start
  | InString string           \<comment> \<open>inside a string literal, the code units read so far\<close>
  | InEscape string           \<comment> \<open>after a backslash\<close>
  | InUnicode string nat nat  \<comment> \<open>after \<open>\u\<close>: digits read, their value\<close>
  | InNumber num_state string
  | InLiteral string token    \<comment> \<open>the rest of \<open>true\<close>, \<open>false\<close> or \<open>null\<close>\<close>

text \<open>
  The tokens of a text, and whether some \<open>\uXXXX\<close> escape names a code unit above 255:
  such text is JSON, but the string it denotes lies outside the model.
\<close>

definition emit :: "token \<Rightarrow> (token list \<times> bool) option \<Rightarrow> (token list \<times> bool) option" where
  "emit t r = map_option (\<lambda>p. (t # fst p, snd p)) r"

definition mark_wide :: "(token list \<times> bool) option \<Rightarrow> (token list \<times> bool) option" where
  "mark_wide r = map_option (\<lambda>p. (fst p, True)) r"

datatype start_action = Skip | Emit token | Enter mode | Reject

definition start_char :: "char \<Rightarrow> start_action" where
  \<comment> \<open>what a character does where a token may begin\<close>
  "start_char c =
     (if is_whitespace c then Skip
      else if c = CHR ''{'' then Emit TLBrace
      else if c = CHR ''}'' then Emit TRBrace
      else if c = CHR ''['' then Emit TLBracket
      else if c = CHR '']'' then Emit TRBracket
      else if c = CHR '','' then Emit TComma
      else if c = CHR '':'' then Emit TColon
      else if c = CHR 0x22 then Enter (InString [])
      else if c = CHR ''-'' then Enter (InNumber NMinus [c])
      else if c = CHR ''0'' then Enter (InNumber NZero [c])
      else if is_digit c then Enter (InNumber NInt [c])
      else if c = CHR ''t'' then Enter (InLiteral ''rue'' TTrue)
      else if c = CHR ''f'' then Enter (InLiteral ''alse'' TFalse)
      else if c = CHR ''n'' then Enter (InLiteral ''ull'' TNull)
      else Reject)"

fun lex :: "mode \<Rightarrow> string \<Rightarrow> (token list \<times> bool) option" where
  "lex Start [] = Some ([], False)"
| "lex Start (c # cs) =
     (case start_char c of
        Skip \<Rightarrow> lex Start cs
      | Emit t \<Rightarrow> emit t (lex Start cs)
      | Enter m \<Rightarrow> lex m cs
      | Reject \<Rightarrow> None)"
| "lex (InString acc) [] = None"
| "lex (InString acc) (c # cs) =
     (if c = CHR 0x22 then emit (TString acc) (lex Start cs)
      else if c = CHR 0x5C then lex (InEscape acc) cs
      else if (of_char c :: nat) < 32 then None
      else lex (InString (acc @ [c])) cs)"
| "lex (InEscape acc) [] = None"
| "lex (InEscape acc) (c # cs) =
     (if c = CHR 0x22 \<or> c = CHR 0x5C \<or> c = CHR ''/'' then lex (InString (acc @ [c])) cs
      else if c = CHR ''b'' then lex (InString (acc @ [CHR 0x08])) cs
      else if c = CHR ''f'' then lex (InString (acc @ [CHR 0x0C])) cs
      else if c = CHR ''n'' then lex (InString (acc @ [CHR 0x0A])) cs
      else if c = CHR ''r'' then lex (InString (acc @ [CHR 0x0D])) cs
      else if c = CHR ''t'' then lex (InString (acc @ [CHR 0x09])) cs
      else if c = CHR ''u'' then lex (InUnicode acc 0 0) cs
      else None)"
| "lex (InUnicode acc k n) [] = None"
| "lex (InUnicode acc k n) (c # cs) =
     (case hex_val c of
        None \<Rightarrow> None
      | Some d \<Rightarrow>
          if k < 3 then lex (InUnicode acc (Suc k) (16 * n + d)) cs
          else if 16 * n + d < 256 then lex (InString (acc @ [char_of (16 * n + d)])) cs
          else mark_wide (lex (InString (acc @ [CHR ''?''])) cs))"
| "lex (InNumber st lexeme) [] = (if num_final st then Some ([TNumber lexeme], False) else None)"
| "lex (InNumber st lexeme) (c # cs) =
     (case num_step st c of
        Some st' \<Rightarrow> lex (InNumber st' (lexeme @ [c])) cs
      | None \<Rightarrow>
          if \<not> num_final st then None
          else emit (TNumber lexeme)
                 (case start_char c of
                    Skip \<Rightarrow> lex Start cs
                  | Emit t \<Rightarrow> emit t (lex Start cs)
                  | Enter m \<Rightarrow> lex m cs
                  | Reject \<Rightarrow> None))"
| "lex (InLiteral rest t) [] = None"
| "lex (InLiteral rest t) (c # cs) =
     (case rest of
        [] \<Rightarrow> None
      | r # rest' \<Rightarrow>
          if c \<noteq> r then None
          else if rest' = [] then emit t (lex Start cs)
          else lex (InLiteral rest' t) cs)"

definition build_object :: "(string \<times> json) list \<Rightarrow> (string \<times> json) list" where
  \<comment> \<open>the members of an object literal become own properties one after the other: a
      repeated key keeps its first place and its last value\<close>
  "build_object kvs = foldl (\<lambda>ps kv. define_own ps (fst kv) (snd kv)) [] kvs"

text \<open>
  Recursive descent over the tokens. The first argument bounds the depth of the
  recursion; every call consumes a token before it recurses, so a bound above the
  number of tokens is never exhausted.
\<close>

fun parse_value :: "nat \<Rightarrow> token list \<Rightarrow> (json \<times> token list) option"
  and parse_elements :: "nat \<Rightarrow> token list \<Rightarrow> (json list \<times> token list) option"
  and parse_members :: "nat \<Rightarrow> token list \<Rightarrow> ((string \<times> json) list \<times> token list) option"
where
  "parse_value 0 ts = None"
| "parse_value (Suc n) ts =
     (case ts of
        TString s # r \<Rightarrow> Some (JStr s, r)
      | TNumber l # r \<Rightarrow> Some (JNum l, r)
      | TTrue # r \<Rightarrow> Some (JBool True, r)
      | TFalse # r \<Rightarrow> Some (JBool False, r)
      | TNull # r \<Rightarrow> Some (JNull, r)
      | TLBracket # TRBracket # r \<Rightarrow> Some (JArr [], r)
      | TLBracket # r \<Rightarrow>
          (case parse_value n r of
             None \<Rightarrow> None
           | Some (v, r') \<Rightarrow>
               (case parse_elements n r' of
                  None \<Rightarrow> None
                | Some (vs, r'') \<Rightarrow> Some (JArr (v # vs), r'')))
      | TLBrace # TRBrace # r \<Rightarrow> Some (JObj [], r)
      | TLBrace # TString k # TColon # r \<Rightarrow>
          (case parse_value n r of
             None \<Rightarrow> None
           | Some (v, r') \<Rightarrow>
               (case parse_members n r' of
                  None \<Rightarrow> None
                | Some (kvs, r'') \<Rightarrow> Some (JObj (build_object ((k, v) # kvs)), r'')))
      | _ \<Rightarrow> None)"
| "parse_elements 0 ts = None"
| "parse_elements (Suc n) ts =
     (case ts of
        TRBracket # r \<Rightarrow> Some ([], r)
      | TComma # r \<Rightarrow>
          (case parse_value n r of
             None \<Rightarrow> None
           | Some (v, r') \<Rightarrow>
               (case parse_elements n r' of
                  None \<Rightarrow> None
                | Some (vs, r'') \<Rightarrow> Some (v # vs, r'')))
      | _ \<Rightarrow> None)"
| "parse_members 0 ts = None"
| "parse_members (Suc n) ts =
     (case ts of
        TRBrace # r \<Rightarrow> Some ([], r)
      | TComma # TString k # TColon # r \<Rightarrow>
          (case parse_value n r of
             None \<Rightarrow> None
           | Some (v, r') \<Rightarrow>
               (case parse_members n r' of
                  None \<Rightarrow> None
                | Some (kvs, r'') \<Rightarrow> Some ((k, v) # kvs, r'')))
      | _ \<Rightarrow> None)"

datatype parse_result =
    Parsed json
  | Invalid                   \<comment> \<open>not JSON: \<open>JSON.parse\<close> throws a SyntaxError\<close>
  | Beyond                    \<comment> \<open>JSON, with a string outside the modelled code units\<close>

definition JSON_parse :: "string \<Rightarrow> parse_result" where
  "JSON_parse text =
     (case lex Start text of
        None \<Rightarrow> Invalid
      | Some (ts, wide) \<Rightarrow>
          (case parse_value (Suc (length ts)) ts of
             Some (v, []) \<Rightarrow> if wide then Beyond else Parsed v
           | _ \<Rightarrow> Invalid))"

section \<open>Loading the file\<close>

text \<open>
  \<open>this.memory = JSON.parse(data)\<close> stores whatever value the text denotes. The
  operations above are typed: they are modelled on values of the persisted shape, an
  object of entities with their four fields, an array of relation objects, and the
  empty object of observations. \<open>graph_of_json\<close> reads such a value as a graph; any
  other value is kept as it is, outside the typed model. So is a value with a number
  that is not a safe integer: numbers in general are floating point.
\<close>

fun js_ordered :: "string list \<Rightarrow> bool" where
  \<comment> \<open>the keys of an object in their enumeration order: no key twice, array indices
      first and ascending\<close>
  "js_ordered [] = True"
| "js_ordered (k # ks) =
     (k \<notin> set ks \<and> js_ordered ks
      \<and> (case array_index k of
            Some n \<Rightarrow> list_all (\<lambda>k'. case array_index k' of Some m \<Rightarrow> n < m | None \<Rightarrow> True) ks
          | None \<Rightarrow> list_all (\<lambda>k'. array_index k' = None) ks))"

definition safe_integer :: "string \<Rightarrow> bool" where
  \<comment> \<open>the numerals of the integers from \<open>-(2^53 - 1)\<close> to \<open>2^53 - 1\<close>, as
      \<open>JSON.stringify\<close> writes them: the number read from such a numeral is written
      as the same numeral\<close>
  "safe_integer l =
     (let ds = (if l \<noteq> [] \<and> hd l = CHR ''-'' then tl l else l)
      in ds \<noteq> [] \<and> list_all is_digit ds \<and> (hd ds \<noteq> CHR ''0'' \<or> l = ''0'')
         \<and> length ds \<le> 16 \<and> numeral_val ds \<le> 9007199254740991)"

fun exact :: "json \<Rightarrow> bool" where
  \<comment> \<open>the values that the model writes as the program does: every number a safe
      integer in the numeral \<open>JSON.stringify\<close> gives it, every object with its keys in
      enumeration order\<close>
  "exact JNull = True"
| "exact (JBool b) = True"
| "exact (JNum l) = safe_integer l"
| "exact (JStr s) = True"
| "exact (JArr vs) = list_all exact vs"
| "exact (JObj kvs) = (js_ordered (map fst kvs) \<and> list_all (\<lambda>kv. exact (snd kv)) kvs)"


definition field :: "json \<Rightarrow> string \<Rightarrow> json" where
  "field v k = (case v of JObj kvs \<Rightarrow> (case map_of kvs k of Some x \<Rightarrow> x | None \<Rightarrow> JNull) | _ \<Rightarrow> JNull)"

definition members :: "json \<Rightarrow> (string \<times> json) list" where
  "members v = (case v of JObj kvs \<Rightarrow> kvs | _ \<Rightarrow> [])"

definition elements :: "json \<Rightarrow> json list" where
  "elements v = (case v of JArr vs \<Rightarrow> vs | _ \<Rightarrow> [])"

definition text_of :: "json \<Rightarrow> string" where
  "text_of v = (case v of JStr s \<Rightarrow> s | _ \<Rightarrow> [])"

definition read_entity :: "json \<Rightarrow> entity" where
  "read_entity v =
     \<lparr>name = text_of (field v ''name''), entityType = text_of (field v ''entityType''),
      observations = map text_of (elements (field v ''observations'')),
      createdAt = text_of (field v ''createdAt'')\<rparr>"

definition read_relation :: "json \<Rightarrow> relation" where
  "read_relation v = members v"

definition read_graph :: "json \<Rightarrow> graph" where
  "read_graph v =
     \<lparr>entities = \<lparr>own = map (\<lambda>kv. (fst kv, read_entity (snd kv))) (members (field v ''entities'')),
                  proto = None\<rparr>,
      relations = map read_relation (elements (field v ''relations'')),
      root_observations = EmptyObject\<rparr>"

definition graph_of_json :: "json \<Rightarrow> graph option" where
  \<comment> \<open>the graph \<open>g\<close> whose JSON is exactly \<open>v\<close>, if there is one\<close>
  "graph_of_json v =
     (if json_of_graph (read_graph v) = v \<and> list_all exact (elements (field v ''relations''))
      then Some (read_graph v) else None)"

datatype loaded =
    Loaded "(exn + unit) \<times> world"  \<comment> \<open>\<open>loadMemory\<close> has returned or thrown, in this state\<close>
  | Untyped json world        \<comment> \<open>it has returned and \<open>this.memory\<close> holds this value,
                                  which has not the persisted shape\<close>
  | Unmodelled                \<comment> \<open>the file holds JSON with strings outside the modelled code units\<close>

definition loadMemory :: "world \<Rightarrow> loaded" where
  \<comment> \<open>the \<open>catch\<close> block runs when \<open>readFile\<close> rejects and when \<open>JSON.parse\<close> throws\<close>
  "loadMemory w =
     (case readFile w of
        (Inl error, w1) \<Rightarrow> Loaded (saveMemory w1)
      | (Inr data, w1) \<Rightarrow>
          (case JSON_parse data of
             Invalid \<Rightarrow> Loaded (saveMemory w1)
           | Beyond \<Rightarrow> Unmodelled
           | Parsed v \<Rightarrow>
               (case graph_of_json v of
                  None \<Rightarrow> Untyped v w1
                | Some g \<Rightarrow> Loaded (Inr (), w1\<lparr>memory := g\<rparr>))))"

definition new_world :: "string option \<Rightarrow> (nat \<Rightarrow> io_outcome) \<Rightarrow> (nat \<Rightarrow> string) \<Rightarrow> world" where
  \<comment> \<open>the fields the constructor sets, in an environment: a file, the fate of the
      file-system calls to come, a clock\<close>
  "new_world file outcomes readings =
     \<lparr>memory = empty_graph, disk = file, io = outcomes, io_count = 0,
      clock = readings, ticks = 0\<rparr>"

definition constructor :: "string option \<Rightarrow> (nat \<Rightarrow> io_outcome) \<Rightarrow> (nat \<Rightarrow> string)
    \<Rightarrow> loaded" where
  \<comment> \<open>\<open>this.memory = {...}; this.loadMemory()\<close>, the load run to its end before the
      first request\<close>
  "constructor file outcomes readings = loadMemory (new_world file outcomes readings)"

section \<open>The WebSocket listener\<close>

text \<open>
  \<open>main\<close> starts a SimpleMemoryServer and registers a listener for the messages of
  every WebSocket connection. The listener parses the text of a message and passes the
  value to \<open>handleRequest\<close>, which is modelled on typed requests: \<open>rpc_request_of\<close>
  reads a parsed object as such a request, where a missing field and the value \<open>null\<close>
  are the same to the code. A message that denotes any other value lies outside the
  typed model.
\<close>

definition own_field :: "json \<Rightarrow> string \<Rightarrow> json option" where
  "own_field v k = (case v of JObj kvs \<Rightarrow> map_of kvs k | _ \<Rightarrow> None)"

definition string_of :: "json \<Rightarrow> string option" where
  "string_of v = (case v of JStr s \<Rightarrow> Some s | _ \<Rightarrow> None)"

definition optional :: "(json \<Rightarrow> 'a option) \<Rightarrow> json \<Rightarrow> string \<Rightarrow> 'a option option" where
  \<comment> \<open>a field that may be missing or \<open>null\<close>; the outer \<open>None\<close>: it holds a value
      that is not of the type\<close>
  "optional read v k =
     (case own_field v k of
        None \<Rightarrow> Some None
      | Some JNull \<Rightarrow> Some None
      | Some x \<Rightarrow> map_option Some (read x))"

definition list_of :: "(json \<Rightarrow> 'a option) \<Rightarrow> json \<Rightarrow> 'a list option" where
  "list_of read v = (case v of JArr xs \<Rightarrow> those (map read xs) | _ \<Rightarrow> None)"

definition entity_input_of :: "json \<Rightarrow> entity_input option" where
  "entity_input_of v =
     (case (own_field v ''name'', own_field v ''entityType'',
            optional (list_of string_of) v ''observations'') of
        (Some (JStr n), Some (JStr t), Some os) \<Rightarrow>
          Some \<lparr>in_name = n, in_entityType = t, in_observations = os\<rparr>
      | _ \<Rightarrow> None)"

definition relation_input_of :: "json \<Rightarrow> relation_input option" where
  "relation_input_of v = (case v of JObj kvs \<Rightarrow> Some kvs | _ \<Rightarrow> None)"

definition observation_input_of :: "json \<Rightarrow> observation_input option" where
  "observation_input_of v =
     (case (own_field v ''entityName'', own_field v ''contents'') of
        (Some (JStr n), Some (JArr cs)) \<Rightarrow>
          map_option (\<lambda>ss. \<lparr>entityName = n, contents = ss\<rparr>) (those (map string_of cs))
      | _ \<Rightarrow> None)"

definition tool_arguments_of :: "json \<Rightarrow> tool_arguments option" where
  "tool_arguments_of v =
     (case v of
        JObj kvs \<Rightarrow>
          (case (optional (list_of entity_input_of) v ''entities'',
                 optional (list_of relation_input_of) v ''relations'',
                 optional (list_of observation_input_of) v ''observations'',
                 optional string_of v ''query'') of
             (Some es, Some rs, Some os, Some q) \<Rightarrow>
               Some \<lparr>arg_entities = es, arg_relations = rs, arg_observations = os, arg_query = q\<rparr>
           | _ \<Rightarrow> None)
      | _ \<Rightarrow> None)"

definition request_of :: "json \<Rightarrow> request option" where
  "request_of v =
     (case (own_field v ''name'', optional tool_arguments_of v ''arguments'') of
        (Some (JStr n), Some args) \<Rightarrow> Some \<lparr>tool_name = n, arguments = args\<rparr>
      | _ \<Rightarrow> None)"

definition rpc_request_of :: "json \<Rightarrow> rpc_request option" where
  "rpc_request_of v =
     (case (own_field v ''method'', optional request_of v ''params'') of
        (Some (JStr m), Some ps) \<Rightarrow> Some \<lparr>rpc_method = m, rpc_params = ps\<rparr>
      | _ \<Rightarrow> None)"

record reply =
  \<comment> \<open>\<open>ws.send(JSON.stringify({ jsonrpc: '2.0', id: request.id, result: response }))\<close>\<close>
  reply_id :: "json option"
  reply_result :: response

datatype handled =
    Handled "(exn + reply) \<times> world" \<comment> \<open>the listener has sent this reply, or this exception has
                                      left it, in this state\<close>
  | NotTyped                  \<comment> \<open>the message is JSON and denotes no typed request\<close>

definition catch_block :: "exn \<Rightarrow> reply action" where
  \<comment> \<open>\<open>ws.send(JSON.stringify({ jsonrpc: '2.0', id: request.id || null, error: ... }))\<close>:
      \<open>request\<close> is declared inside the \<open>try\<close> block and is not in scope here, so the
      argument of \<open>ws.send\<close> cannot be evaluated\<close>
  "catch_block error = throw (ReferenceError ''request'')"

definition on_message :: "(type_error \<Rightarrow> string) \<Rightarrow> string \<Rightarrow> world \<Rightarrow> handled" where
  \<comment> \<open>the listener is an \<open>async\<close> function that nothing awaits: an exception that
      leaves it is an unhandled rejection\<close>
  "on_message wording data w =
     (case JSON_parse data of
        Invalid \<Rightarrow> Handled (try_catch (throw SyntaxError) catch_block w)
      | Beyond \<Rightarrow> NotTyped
      | Parsed v \<Rightarrow>
          if v = JNull
          then Handled (try_catch (throw (TypeError (ReadOfUndefined ''method''))) catch_block w)
          else (case rpc_request_of v of
                  None \<Rightarrow> NotTyped
                | Some request \<Rightarrow>
                    Handled
                      (try_catch
                         (bind (handleRequest wording request) (\<lambda>response.
                            return \<lparr>reply_id = own_field v ''id'', reply_result = response\<rparr>))
                         catch_block w)))"

section \<open>Vocabulary of the statements, and example data\<close>

definition overwritten_names :: "request \<Rightarrow> string list" where
  "overwritten_names req =
     (if tool_name req = ''create_entities''
      then (case arguments req of
              None \<Rightarrow> []
            | Some args \<Rightarrow> (case arg_entities args of None \<Rightarrow> [] | Some es \<Rightarrow> map in_name es))
      else [])"

definition rpc_overwritten_names :: "rpc_request \<Rightarrow> string list" where
  "rpc_overwritten_names rpc =
     (if rpc_method rpc = ''tools/call''
      then (case rpc_params rpc of None \<Rightarrow> [] | Some req \<Rightarrow> overwritten_names req)
      else [])"

definition example_clock :: "nat \<Rightarrow> string" where
  "example_clock k = (if k = 0 then ''2024-01-01T00:00:00.000Z'' else ''2024-01-01T00:00:00.001Z'')"

definition example_world :: "graph \<Rightarrow> world" where
  "example_world g =
     \<lparr>memory = g, disk = None, io = (\<lambda>k. IoOk), io_count = 0, clock = example_clock, ticks = 0\<rparr>"

definition example_wording :: "type_error \<Rightarrow> string" where
  "example_wording t =
     (case t of
        ReadOfUndefined p \<Rightarrow>
          ''Cannot read properties of undefined (reading '' @ [CHR 0x27] @ p @ [CHR 0x27] @ '')''
      | NotIterable x \<Rightarrow> x @ '' is not iterable''
      | NotAFunction x \<Rightarrow> x @ '' is not a function'')"

definition entity_A :: entity where
  "entity_A = \<lparr>name = ''A'', entityType = ''T'', observations = [''x''],
               createdAt = ''2023-12-31T00:00:00.000Z''\<rparr>"

definition graph_A :: graph where
  "graph_A = \<lparr>entities = \<lparr>own = [(''A'', entity_A)], proto = None\<rparr>, relations = [],
              root_observations = EmptyObject\<rparr>"

definition input_A1 :: entity_input where
  "input_A1 = \<lparr>in_name = ''A'', in_entityType = ''T2'', in_observations = Some [''y'']\<rparr>"

definition input_A2 :: entity_input where
  "input_A2 = \<lparr>in_name = ''A'', in_entityType = ''T3'', in_observations = None\<rparr>"

definition no_arguments :: tool_arguments where
  "no_arguments = \<lparr>arg_entities = None, arg_relations = None, arg_observations = None,
                   arg_query = None\<rparr>"

definition failing_world :: "graph \<Rightarrow> world" where
  \<comment> \<open>every file-system call fails and leaves no file\<close>
  "failing_world g = (example_world g)\<lparr>io := (\<lambda>k. IoError None)\<rparr>"

definition unknown_request :: request where
  "unknown_request = \<lparr>tool_name = ''delete_entities'', arguments = None\<rparr>"

definition create_A_request :: request where
  "create_A_request =
     \<lparr>tool_name = ''create_entities'',
      arguments = Some (no_arguments\<lparr>arg_entities := Some [input_A1]\<rparr>)\<rparr>"

definition observe_request :: "string \<Rightarrow> request" where
  "observe_request k =
     \<lparr>tool_name = ''add_observations'',
      arguments = Some (no_arguments\<lparr>arg_observations :=
                          Some [\<lparr>entityName = k, contents = [''z'']\<rparr>]\<rparr>)\<rparr>"

definition entity_B :: entity where
  "entity_B = \<lparr>name = ''B'', entityType = ''T'', observations = [''p'', ''q'', ''r''],
               createdAt = ''2023-12-31T00:00:00.000Z''\<rparr>"

definition relation_AB :: relation where
  "relation_AB = [(''from'', JStr ''A''), (''to'', JStr ''B''), (''relationType'', JStr ''knows''),
                  (''createdAt'', JStr ''2023-12-31T00:00:00.000Z'')]"

definition graph_AB :: graph where
  \<comment> \<open>two entities with 3 and 1 observations, 4 relations\<close>
  "graph_AB = \<lparr>entities = \<lparr>own = [(''B'', entity_B), (''A'', entity_A)], proto = None\<rparr>,
               relations = [relation_AB, relation_AB, relation_AB, relation_AB],
               root_observations = EmptyObject\<rparr>"

definition never_ok :: "nat \<Rightarrow> io_outcome" where
  \<comment> \<open>every file-system call fails and leaves no file\<close>
  "never_ok k = IoError None"

definition always_ok :: "nat \<Rightarrow> io_outcome" where
  "always_ok k = IoOk"




definition entity_7 :: entity where
  "entity_7 = \<lparr>name = ''7'', entityType = ''number'', observations = [''prime'', ''odd''],
               createdAt = ''2024-01-03T00:00:00.000Z''\<rparr>"

definition entity_Paris :: entity where
  "entity_Paris = \<lparr>name = ''Paris'', entityType = ''city'',
                   observations = [''Capital of FRANCE'', ''Twinned with ROME''],
                   createdAt = ''2024-01-01T00:00:00.000Z''\<rparr>"

definition entity_Rome :: entity where
  "entity_Rome = \<lparr>name = ''Rome'', entityType = ''city'', observations = [],
                  createdAt = ''2024-01-02T00:00:00.000Z''\<rparr>"

definition relation_twin :: relation where
  \<comment> \<open>stored for a request that wrote the keys in this order, with a field of its own\<close>
  "relation_twin =
     [(''to'', JStr ''Rome''), (''relationType'', JStr ''twin of''), (''from'', JStr ''Paris''),
      (''since'', JNum ''1956''), (''createdAt'', JStr ''2024-01-04T00:00:00.000Z'')]"

definition relation_capital :: relation where
  "relation_capital =
     [(''from'', JStr ''Rome''), (''to'', JStr ''Lazio''), (''relationType'', JStr ''capital of''),
      (''createdAt'', JStr ''2024-01-05T00:00:00.000Z'')]"

definition graph_P :: graph where
  \<comment> \<open>the graph after Paris, Rome and 7 were created in this order, then the two
      relations\<close>
  "graph_P =
     \<lparr>entities = \<lparr>own = [(''7'', entity_7), (''Paris'', entity_Paris), (''Rome'', entity_Rome)],
                  proto = None\<rparr>,
      relations = [relation_twin, relation_capital], root_observations = EmptyObject\<rparr>"




definition loaded_world :: "loaded \<Rightarrow> world option" where
  "loaded_world l =
     (case l of Loaded rw \<Rightarrow> Some (snd rw) | Untyped v w \<Rightarrow> Some w | Unmodelled \<Rightarrow> None)"

definition snapshot_A :: string where
  "snapshot_A = JSON_stringify (json_of_graph graph_A)"


definition stored_world :: "string \<Rightarrow> world" where
  \<comment> \<open>a fresh server beside a file with this text\<close>
  "stored_world text = new_world (Some text) always_ok example_clock"

definition grows :: "string list \<Rightarrow> graph \<Rightarrow> graph \<Rightarrow> bool" where
  "grows names g g' =
     (prefix (relations g) (relations g')
      \<and> (\<forall>k. has_own (own (entities g)) k \<longrightarrow> has_own (own (entities g')) k)
      \<and> (\<forall>k e. k \<notin> set names \<and> map_of (own (entities g)) k = Some e \<longrightarrow>
             (\<exists>e'. map_of (own (entities g')) k = Some e'
                  \<and> prefix (observations e) (observations e'))))"

fun toks :: "json \<Rightarrow> token list" where
  \<comment> \<open>the tokens of the text of a value\<close>
  "toks JNull = [TNull]"
| "toks (JBool b) = [if b then TTrue else TFalse]"
| "toks (JNum n) = [TNumber n]"
| "toks (JStr s) = [TString s]"
| "toks (JArr vs) =
     (case vs of
        [] \<Rightarrow> [TLBracket, TRBracket]
      | v # rest \<Rightarrow>
          TLBracket # toks v @ concat (map (\<lambda>x. TComma # toks x) rest) @ [TRBracket])"
| "toks (JObj kvs) =
     (case kvs of
        [] \<Rightarrow> [TLBrace, TRBrace]
      | kv # rest \<Rightarrow>
          TLBrace # TString (fst kv) # TColon # toks (snd kv)
            @ concat (map (\<lambda>x. TComma # TString (fst x) # TColon # toks (snd x)) rest)
            @ [TRBrace])"

definition ends_value :: "string \<Rightarrow> bool" where
  \<comment> \<open>what follows a value in written text: nothing, a comma or a line break\<close>
  "ends_value rest = (rest = [] \<or> hd rest = CHR '','' \<or> hd rest = CHR 0x0A)"

definition emit_all :: "token list \<Rightarrow> (token list \<times> bool) option \<Rightarrow> (token list \<times> bool) option" where
  "emit_all ts r = map_option (\<lambda>p. (ts @ fst p, snd p)) r"




section \<open>Properties of the operations\<close>

subsection \<open>creating entities\<close>

lemma bind_return [simp]: "bind (return a) f = f a"
  by (rule ext) (simp add: bind_def return_def)

lemma bind_throw [simp]: "bind (throw e) f = throw e"
  by (rule ext) (simp add: bind_def throw_def)

lemma map_of_replace_own:
  "map_of (replace_own ps k' v) k = (if k = k' \<and> has_own ps k' then Some v else map_of ps k)"
  by (induction ps) (auto simp: has_own_def)

lemma map_of_insert_index:
  "\<not> has_own ps k' \<Longrightarrow> map_of (insert_index n k' v ps) k = (if k = k' then Some v else map_of ps k)"
  by (induction ps) (auto simp: has_own_def split: option.splits if_splits)

lemma map_of_define_own:
  "map_of (define_own ps k' v) k = (if k = k' then Some v else map_of ps k)"
  by (auto simp: define_own_def map_of_replace_own map_of_insert_index has_own_def map_add_def
        split: option.splits)

lemma has_own_define_own:
  "has_own (define_own ps k' v) k = (k = k' \<or> has_own ps k)"
  by (simp add: has_own_def map_of_define_own)

lemma own_set_property:
  "map_of (own (set_property obj k' e)) k =
     (if k = k' \<and> (k' = ''__proto__'' \<longrightarrow> has_own (own obj) k') then Some e else map_of (own obj) k)"
  by (auto simp: set_property_def map_of_define_own has_own_def)

lemma loop_Cons:
  "createEntities_loop (e # es) w =
     createEntities_loop es
       (w\<lparr>ticks := Suc (ticks w),
          memory := (memory w)\<lparr>entities := set_property (entities (memory w)) (in_name e)
                      (new_entity e (clock w (ticks w)))\<rparr>\<rparr>)"
  by (simp add: bind_def now_def set_entity_def)

lemma loop_Nil: "createEntities_loop [] w = (Inr (), w)"
  by (simp add: return_def)

lemma loop_frame:
  "fst (createEntities_loop es w) = Inr ()
   \<and> ticks (snd (createEntities_loop es w)) = ticks w + length es
   \<and> clock (snd (createEntities_loop es w)) = clock w
   \<and> io (snd (createEntities_loop es w)) = io w
   \<and> io_count (snd (createEntities_loop es w)) = io_count w
   \<and> disk (snd (createEntities_loop es w)) = disk w
   \<and> relations (memory (snd (createEntities_loop es w))) = relations (memory w)"
  by (induction es arbitrary: w) (simp_all add: loop_Cons loop_Nil del: createEntities_loop.simps)

lemma loop_other:
  "k \<notin> in_name ` set es \<Longrightarrow>
   map_of (own (entities (memory (snd (createEntities_loop es w))))) k
     = map_of (own (entities (memory w))) k"
  by (induction es arbitrary: w) (auto simp: loop_Cons loop_Nil own_set_property simp del: createEntities_loop.simps)

lemma loop_last:
  assumes "has_own (own (entities (memory w))) k \<or> k \<noteq> ''__proto__''"
    and "i < length es" and "in_name (es ! i) = k"
    and "\<forall>j. i < j \<and> j < length es \<longrightarrow> in_name (es ! j) \<noteq> k"
  shows "map_of (own (entities (memory (snd (createEntities_loop es w))))) k
           = Some (new_entity (es ! i) (clock w (ticks w + i)))"
  using assms
proof (induction es arbitrary: w i)
  case Nil
  then show ?case by simp
next
  case (Cons e es)
  let ?w1 = "w\<lparr>ticks := Suc (ticks w),
          memory := (memory w)\<lparr>entities := set_property (entities (memory w)) (in_name e)
                      (new_entity e (clock w (ticks w)))\<rparr>\<rparr>"
  show ?case
  proof (cases i)
    case 0
    have "k \<notin> in_name ` set es"
    proof
      assume "k \<in> in_name ` set es"
      then obtain j where "j < length es" "in_name (es ! j) = k"
        by (auto simp: in_set_conv_nth)
      with Cons.prems(4)[rule_format, of "Suc j"] 0 show False by simp
    qed
    then show ?thesis
      using Cons.prems 0
      by (auto simp: loop_Cons loop_other own_set_property simp del: createEntities_loop.simps)
  next
    case (Suc i')
    have h: "has_own (own (entities (memory ?w1))) k \<or> k \<noteq> ''__proto__''"
      using Cons.prems(1) by (auto simp: set_property_def has_own_define_own)
    have "\<forall>j. i' < j \<and> j < length es \<longrightarrow> in_name (es ! j) \<noteq> k"
      using Cons.prems(4) Suc by auto
    with Cons.IH[of ?w1 i', OF h] Cons.prems Suc show ?thesis
      by (simp add: loop_Cons del: createEntities_loop.simps)
  qed
qed


lemma saveMemory_eq:
  "saveMemory w =
     (Inr (), w\<lparr>io_count := Suc (io_count w),
                disk := (case io w (io_count w) of
                           IoOk \<Rightarrow> Some (JSON_stringify (json_of_graph (memory w)))
                         | IoError left \<Rightarrow> left)\<rparr>)"
  by (simp add: saveMemory_def try_catch_def writeFile_def return_def Let_def split: io_outcome.splits)

lemma createEntities_eq:
  "createEntities (Some es) w =
     (Inr (''Created '' @ show_nat (length es) @ '' entities successfully''),
      snd (saveMemory (snd (createEntities_loop es w))))"
proof -
  obtain w1 where w1: "createEntities_loop es w = (Inr (), w1)"
    using loop_frame[of es w] by (cases "createEntities_loop es w") auto
  show ?thesis
    by (simp add: createEntities_def bind_def w1 saveMemory_eq return_def)
qed

lemma memory_createEntities:
  "memory (snd (createEntities (Some es) w)) = memory (snd (createEntities_loop es w))"
  by (simp add: createEntities_eq saveMemory_eq)



subsection \<open>search\<close>








lemma searchNodes_untyped_relation:
  "searchNodes (Some ''x'') (example_world (empty_graph\<lparr>relations := [[(''from'', JStr ''A'')]]\<rparr>))
     = (Inl (TypeError (ReadOfUndefined ''toLowerCase'')),
        example_world (empty_graph\<lparr>relations := [[(''from'', JStr ''A'')]]\<rparr>))"
  by (simp add: searchNodes_def Let_def example_world_def empty_graph_def Object_entries_def
      relation_matches_def lowered_def toLowerCase_def lowerUnit_def upper_units_def
      lower_units_def)


subsection \<open>read-only operations\<close>

lemma searches_keep_world:
  "snd (searchNodes arg w) = w" "snd (Simple_searchNodes arg w) = w"
  by (simp_all add: searchNodes_def Simple_searchNodes_def Let_def split: option.splits sum.splits)

text \<open>
  Claim C10. \<open>searchNodes\<close> and \<open>readGraph\<close>, of either server and also when the query is
  missing, leave the whole state as it was: the graph in memory, the file, and the count
  of file-system calls made.
\<close>

theorem reads_leave_world_unchanged:
  "snd (searchNodes arg w) = w \<and> snd (readGraph w) = w
   \<and> snd (Simple_searchNodes arg w) = w \<and> snd (Simple_readGraph w) = w"
  by (simp add: searches_keep_world readGraph_def Simple_readGraph_def)

subsection \<open>statistics\<close>

lemma foldl_sum_lengths:
  "foldl (\<lambda>sum entity. sum + length (observations entity)) a es
     = a + sum_list (map (\<lambda>entity. length (observations entity)) es)"
  by (induction es arbitrary: a) auto

lemma graph_stats_eq:
  "graph_stats g =
     JObj [(''entities'', JNum (show_nat (length (own (entities g))))),
           (''relations'', JNum (show_nat (length (relations g)))),
           (''totalObservations'',
              JNum (show_nat (sum_list (map (\<lambda>kv. length (observations (snd kv))) (own (entities g))))))]"
  by (simp add: graph_stats_def Object_keys_def Object_values_def foldl_sum_lengths comp_def)

lemma show_nat_small: "show_nat 2 = ''2''" "show_nat 4 = ''4''"
  by (simp_all add: show_nat.simps digit_def)

subsection \<open>save failures\<close>

lemma createEntities_loop_io:
  "createEntities_loop es (w\<lparr>io := f\<rparr>) = (Inr (), (snd (createEntities_loop es w))\<lparr>io := f\<rparr>)"
proof (induction es arbitrary: w)
  case Nil
  then show ?case by (simp add: return_def)
next
  case (Cons e es)
  let ?w1 = "w\<lparr>ticks := Suc (ticks w),
          memory := (memory w)\<lparr>entities := set_property (entities (memory w)) (in_name e)
                      (new_entity e (clock w (ticks w)))\<rparr>\<rparr>"
  have "createEntities_loop (e # es) (w\<lparr>io := f\<rparr>) = createEntities_loop es (?w1\<lparr>io := f\<rparr>)"
    by (cases w) (simp add: loop_Cons del: createEntities_loop.simps)
  also have "\<dots> = (Inr (), (snd (createEntities_loop es ?w1))\<lparr>io := f\<rparr>)"
    by (rule Cons.IH)
  finally show ?case
    by (simp add: loop_Cons del: createEntities_loop.simps)
qed

lemma createRelations_loop_Cons:
  "createRelations_loop (r # rs) w =
     createRelations_loop rs
       (w\<lparr>ticks := Suc (ticks w),
          memory := (memory w)\<lparr>relations := relations (memory w) @ [new_relation r (clock w (ticks w))]\<rparr>\<rparr>)"
  by (simp add: bind_def now_def push_relation_def)

lemma createRelations_loop_Nil: "createRelations_loop [] w = (Inr (), w)"
  by (simp add: return_def)

lemma createRelations_loop_frame:
  "fst (createRelations_loop rs w) = Inr ()
   \<and> io (snd (createRelations_loop rs w)) = io w
   \<and> io_count (snd (createRelations_loop rs w)) = io_count w
   \<and> disk (snd (createRelations_loop rs w)) = disk w
   \<and> entities (memory (snd (createRelations_loop rs w))) = entities (memory w)"
  by (induction rs arbitrary: w)
     (simp_all add: createRelations_loop_Cons createRelations_loop_Nil del: createRelations_loop.simps)

lemma createRelations_loop_io:
  "createRelations_loop rs (w\<lparr>io := f\<rparr>) = (Inr (), (snd (createRelations_loop rs w))\<lparr>io := f\<rparr>)"
proof (induction rs arbitrary: w)
  case Nil
  then show ?case by (simp add: return_def)
next
  case (Cons r rs)
  let ?w1 = "w\<lparr>ticks := Suc (ticks w),
          memory := (memory w)\<lparr>relations := relations (memory w) @ [new_relation r (clock w (ticks w))]\<rparr>\<rparr>"
  have "createRelations_loop (r # rs) (w\<lparr>io := f\<rparr>) = createRelations_loop rs (?w1\<lparr>io := f\<rparr>)"
    by (cases w) (simp add: createRelations_loop_Cons del: createRelations_loop.simps)
  also have "\<dots> = (Inr (), (snd (createRelations_loop rs ?w1))\<lparr>io := f\<rparr>)"
    by (rule Cons.IH)
  finally show ?case
    by (simp add: createRelations_loop_Cons del: createRelations_loop.simps)
qed

lemma createRelations_eq:
  "createRelations (Some rs) w =
     (Inr (''Created '' @ show_nat (length rs) @ '' relations successfully''),
      snd (saveMemory (snd (createRelations_loop rs w))))"
proof -
  obtain w1 where w1: "createRelations_loop rs w = (Inr (), w1)"
    using createRelations_loop_frame[of rs w] by (cases "createRelations_loop rs w") auto
  show ?thesis
    by (simp add: createRelations_def bind_def w1 saveMemory_eq return_def)
qed

lemma push_observations_io:
  "push_observations obs (w\<lparr>io := f\<rparr>) =
     (fst (push_observations obs w), (snd (push_observations obs w))\<lparr>io := f\<rparr>)"
  by (simp add: push_observations_def Let_def split: looked_up.splits)

lemma push_observations_frame:
  "io (snd (push_observations obs w)) = io w
   \<and> io_count (snd (push_observations obs w)) = io_count w
   \<and> disk (snd (push_observations obs w)) = disk w
   \<and> ticks (snd (push_observations obs w)) = ticks w
   \<and> clock (snd (push_observations obs w)) = clock w
   \<and> relations (memory (snd (push_observations obs w))) = relations (memory w)"
  by (simp add: push_observations_def Let_def split: looked_up.splits)


lemma addObservations_loop_Cons:
  "addObservations_loop (obs # rest) w =
     (case push_observations obs w of
        (Inl e, w') \<Rightarrow> (Inl e, w')
      | (Inr u, w') \<Rightarrow> addObservations_loop rest w')"
  by (simp add: bind_def)

lemma addObservations_loop_io:
  "addObservations_loop os (w\<lparr>io := f\<rparr>) =
     (fst (addObservations_loop os w), (snd (addObservations_loop os w))\<lparr>io := f\<rparr>)"
proof (induction os arbitrary: w)
  case Nil
  then show ?case by (simp add: return_def)
next
  case (Cons obs rest)
  show ?case
    by (cases "push_observations obs w")
       (auto simp: addObservations_loop_Cons push_observations_io Cons.IH
             simp del: addObservations_loop.simps split: sum.splits)
qed

lemma addObservations_loop_frame:
  "io (snd (addObservations_loop os w)) = io w
   \<and> io_count (snd (addObservations_loop os w)) = io_count w
   \<and> disk (snd (addObservations_loop os w)) = disk w
   \<and> relations (memory (snd (addObservations_loop os w))) = relations (memory w)"
proof (induction os arbitrary: w)
  case Nil
  then show ?case by (simp add: return_def)
next
  case (Cons obs rest)
  show ?case
    using push_observations_frame[of obs w] Cons.IH[of "snd (push_observations obs w)"]
    by (cases "push_observations obs w")
       (auto simp: addObservations_loop_Cons simp del: addObservations_loop.simps split: sum.splits)
qed

lemma addObservations_eq:
  "addObservations (Some os) w =
     (case addObservations_loop os w of
        (Inl e, w') \<Rightarrow> (Inl e, w')
      | (Inr u, w') \<Rightarrow>
          (Inr (''Added observations to '' @ show_nat (length os) @ '' entities successfully''),
           snd (saveMemory w')))"
  by (simp add: addObservations_def bind_def saveMemory_eq return_def split: prod.splits sum.splits)

text \<open>
  Claim C3. When the write of the snapshot file fails, \<open>saveMemory\<close> returns normally;
  each of \<open>createEntities\<close>, \<open>createRelations\<close> and \<open>addObservations\<close> returns what it
  returns when the write succeeds, with the count, and leaves the in-memory graph as the
  successful run leaves it.
\<close>

theorem save_failure_is_swallowed:
  assumes "io w (io_count w) = IoError left"
  shows "fst (saveMemory w) = Inr ()
    \<and> fst (createEntities (Some es) w)
        = Inr (''Created '' @ show_nat (length es) @ '' entities successfully'')
    \<and> fst (createEntities (Some es) w) = fst (createEntities (Some es) (w\<lparr>io := \<lambda>k. IoOk\<rparr>))
    \<and> memory (snd (createEntities (Some es) w))
        = memory (snd (createEntities (Some es) (w\<lparr>io := \<lambda>k. IoOk\<rparr>)))
    \<and> fst (createRelations (Some rs) w)
        = Inr (''Created '' @ show_nat (length rs) @ '' relations successfully'')
    \<and> fst (createRelations (Some rs) w) = fst (createRelations (Some rs) (w\<lparr>io := \<lambda>k. IoOk\<rparr>))
    \<and> memory (snd (createRelations (Some rs) w))
        = memory (snd (createRelations (Some rs) (w\<lparr>io := \<lambda>k. IoOk\<rparr>)))
    \<and> fst (addObservations (Some os) w) = fst (addObservations (Some os) (w\<lparr>io := \<lambda>k. IoOk\<rparr>))
    \<and> memory (snd (addObservations (Some os) w))
        = memory (snd (addObservations (Some os) (w\<lparr>io := \<lambda>k. IoOk\<rparr>)))
    \<and> fst (Simple_createEntities (Some es) w)
        = fst (Simple_createEntities (Some es) (w\<lparr>io := \<lambda>k. IoOk\<rparr>))
    \<and> memory (snd (Simple_createEntities (Some es) w))
        = memory (snd (Simple_createEntities (Some es) (w\<lparr>io := \<lambda>k. IoOk\<rparr>)))
    \<and> disk (snd (createEntities (Some es) w)) = left"
proof -
  have ce: "fst (createEntities (Some es) w') = Inr (''Created '' @ show_nat (length es) @ '' entities successfully'')
      \<and> memory (snd (createEntities (Some es) w')) = memory (snd (createEntities_loop es w'))" for w'
    by (simp add: createEntities_eq saveMemory_eq)
  have cr: "fst (createRelations (Some rs) w') = Inr (''Created '' @ show_nat (length rs) @ '' relations successfully'')
      \<and> memory (snd (createRelations (Some rs) w')) = memory (snd (createRelations_loop rs w'))" for w'
    by (simp add: createRelations_eq saveMemory_eq)
  have ao: "fst (addObservations (Some os) w') =
              (case fst (addObservations_loop os w') of Inl e \<Rightarrow> Inl e
               | Inr u \<Rightarrow> Inr (''Added observations to '' @ show_nat (length os) @ '' entities successfully''))
      \<and> memory (snd (addObservations (Some os) w')) = memory (snd (addObservations_loop os w'))" for w'
    by (cases "addObservations_loop os w'") (auto simp: addObservations_eq saveMemory_eq split: sum.splits)
  have sc: "Simple_createEntities (Some es) w' =
     (Inr (Content (''Created '' @ show_nat (length es) @ '' entities successfully'')),
      snd (saveMemory (snd (createEntities_loop es w'))))" for w'
  proof -
    obtain w1 where w1: "createEntities_loop es w' = (Inr (), w1)"
      using loop_frame[of es w'] by (cases "createEntities_loop es w'") auto
    show ?thesis
      by (simp add: Simple_createEntities_def bind_def w1 saveMemory_eq return_def)
  qed
  have d: "disk (snd (createEntities (Some es) w)) = left"
    using assms loop_frame[of es w] by (simp add: createEntities_eq saveMemory_eq)
  show ?thesis
    using d by (simp add: ce cr ao sc saveMemory_eq createEntities_loop_io createRelations_loop_io
        addObservations_loop_io)
qed



subsection \<open>dispatch\<close>

lemma try_catch_total:
  "\<exists>resp w'. try_catch m (\<lambda>e. return (f e)) w = (Inr resp, w')"
  by (cases "m w") (auto simp: try_catch_def return_def split: sum.splits)

lemma snd_try_catch_return:
  "snd (try_catch (bind m (\<lambda>r. return (g r))) (\<lambda>e. return (f e)) w) = snd (m w)"
  by (cases "m w") (auto simp: try_catch_def bind_def return_def split: sum.splits)

lemma snd_try_catch_return':
  "snd (try_catch m (\<lambda>e. return (f e)) w) = snd (m w)"
  by (cases "m w") (auto simp: try_catch_def return_def split: sum.splits)

lemma callTool_total: "\<exists>resp w'. callTool wording req w = (Inr resp, w')"
  unfolding callTool_def by (rule try_catch_total)

lemma handleRequest_total: "\<exists>resp w'. handleRequest wording rpc w = (Inr resp, w')"
  unfolding handleRequest_def by (rule try_catch_total)

lemma callTool_unknown:
  assumes "tool_name req \<notin> set [''create_entities'', ''create_relations'', ''add_observations'',
                                ''search_nodes'', ''read_graph'']"
  shows "callTool wording req w =
           (Inr (Content (''Error executing '' @ tool_name req @ '': Unknown tool: '' @ tool_name req)), w)"
  using assms
  by (simp add: callTool_def tool_switch_def try_catch_def bind_def throw_def return_def message_def)

lemma handleRequest_unknown_tool:
  assumes "rpc_method rpc = ''tools/call''" "rpc_params rpc = Some req"
    "tool_name req \<notin> set [''create_entities'', ''search_nodes'', ''read_graph'']"
  shows "handleRequest wording rpc w = (Inr (ErrorMessage (''Unknown tool: '' @ tool_name req)), w)"
  using assms
  by (simp add: handleRequest_def handleToolCall_def try_catch_def throw_def return_def message_def)

lemma handleRequest_unknown_method:
  assumes "rpc_method rpc \<notin> set [''tools/list'', ''tools/call'', ''initialize'']"
  shows "handleRequest wording rpc w = (Inr (ErrorMessage (''Unknown method: '' @ rpc_method rpc)), w)"
  using assms
  by (simp add: handleRequest_def try_catch_def throw_def return_def message_def)

lemma unknown_names_are_echoed:
  "(tool_name req \<notin> set [''create_entities'', ''create_relations'', ''add_observations'',
                              ''search_nodes'', ''read_graph'']
      \<longrightarrow> callTool wording req w =
            (Inr (Content (''Error executing '' @ tool_name req @ '': Unknown tool: ''
                            @ tool_name req)), w))
   \<and> (rpc_method rpc = ''tools/call'' \<and> rpc_params rpc = Some req
        \<and> tool_name req \<notin> set [''create_entities'', ''search_nodes'', ''read_graph'']
      \<longrightarrow> handleRequest wording rpc w = (Inr (ErrorMessage (''Unknown tool: '' @ tool_name req)), w))
   \<and> (rpc_method rpc \<notin> set [''tools/list'', ''tools/call'', ''initialize'']
      \<longrightarrow> handleRequest wording rpc w = (Inr (ErrorMessage (''Unknown method: '' @ rpc_method rpc)), w))"
  using callTool_unknown[of req wording w] handleRequest_unknown_tool[of rpc req wording w]
    handleRequest_unknown_method[of rpc wording w]
  by blast

subsection \<open>append only\<close>

lemma grows_refl: "grows names g g"
  by (auto simp: grows_def)

lemma grows_trans: "grows names g g' \<Longrightarrow> grows names g' g'' \<Longrightarrow> grows names g g''"
  unfolding grows_def
  by (meson prefix_order.trans)

lemma has_own_replace_own: "has_own (replace_own ps k' v) k = has_own ps k"
  by (auto simp: has_own_def map_of_replace_own)

lemma push_observations_grows:
  "grows names (memory w) (memory (snd (push_observations obs w)))"
proof (cases "get_property (entities (memory w)) (entityName obs)")
  case (OwnEntity e0)
  then have m: "map_of (own (entities (memory w))) (entityName obs) = Some e0"
    by (auto simp: get_property_def inherited_builtin_def split: option.splits if_splits)
  show ?thesis
    using OwnEntity m
    by (auto simp: push_observations_def Let_def grows_def has_own_replace_own map_of_replace_own
        has_own_def)
qed (auto simp: push_observations_def Let_def grows_def)

lemma addObservations_loop_grows:
  "grows names (memory w) (memory (snd (addObservations_loop os w)))"
proof (induction os arbitrary: w)
  case Nil
  then show ?case by (simp add: return_def grows_refl)
next
  case (Cons obs rest)
  show ?case
  proof (cases "push_observations obs w")
    case (Pair r w1)
    have g1: "grows names (memory w) (memory w1)"
      using push_observations_grows[of names w obs] Pair by simp
    show ?thesis
    proof (cases r)
      case (Inl e)
      then show ?thesis using Pair g1 by (simp add: addObservations_loop_Cons del: addObservations_loop.simps)
    next
      case (Inr u)
      then show ?thesis
        using Pair g1 Cons.IH[of w1] grows_trans
        by (auto simp: addObservations_loop_Cons simp del: addObservations_loop.simps)
    qed
  qed
qed

lemma addObservations_grows:
  "grows names (memory w) (memory (snd (addObservations arg w)))"
proof (cases arg)
  case None
  then show ?thesis by (simp add: addObservations_def throw_def grows_refl)
next
  case (Some os)
  show ?thesis
    using addObservations_loop_grows[of names w os]
    by (cases "addObservations_loop os w")
       (auto simp: Some addObservations_eq saveMemory_eq split: sum.splits)
qed

lemma createRelations_loop_prefix:
  "prefix (relations (memory w)) (relations (memory (snd (createRelations_loop rs w))))"
proof (induction rs arbitrary: w)
  case Nil
  then show ?case by (simp add: return_def)
next
  case (Cons r rs)
  let ?w1 = "w\<lparr>ticks := Suc (ticks w),
          memory := (memory w)\<lparr>relations := relations (memory w) @ [new_relation r (clock w (ticks w))]\<rparr>\<rparr>"
  show ?case
    using Cons.IH[of ?w1]
    by (auto simp: createRelations_loop_Cons simp del: createRelations_loop.simps
        dest: append_prefixD)
qed

lemma createRelations_grows:
  "grows names (memory w) (memory (snd (createRelations arg w)))"
proof (cases arg)
  case None
  then show ?thesis by (simp add: createRelations_def throw_def grows_refl)
next
  case (Some rs)
  show ?thesis
    using createRelations_loop_prefix[of w rs] createRelations_loop_frame[of rs w]
    by (simp add: Some createRelations_eq saveMemory_eq grows_def)
qed

lemma loop_has_own:
  "has_own (own (entities (memory w))) k \<Longrightarrow>
   has_own (own (entities (memory (snd (createEntities_loop es w))))) k"
proof (induction es arbitrary: w)
  case Nil
  then show ?case by (simp add: return_def)
next
  case (Cons e es)
  show ?case
    using Cons.prems
    by (auto simp: loop_Cons set_property_def has_own_define_own simp del: createEntities_loop.simps
        intro!: Cons.IH)
qed

lemma createEntities_grows:
  "grows (map in_name es) (memory w) (memory (snd (createEntities (Some es) w)))"
  using loop_frame[of es w]
  by (auto simp: grows_def memory_createEntities loop_has_own loop_other)

lemma Simple_createEntities_eq:
  "Simple_createEntities (Some es) w =
     (Inr (Content (''Created '' @ show_nat (length es) @ '' entities successfully'')),
      snd (saveMemory (snd (createEntities_loop es w))))"
proof -
  obtain w1 where w1: "createEntities_loop es w = (Inr (), w1)"
    using loop_frame[of es w] by (cases "createEntities_loop es w") auto
  show ?thesis
    by (simp add: Simple_createEntities_def bind_def w1 saveMemory_eq return_def)
qed

lemma Simple_createEntities_grows:
  "grows (map in_name es) (memory w) (memory (snd (Simple_createEntities (Some es) w)))"
  using loop_frame[of es w]
  by (auto simp: grows_def Simple_createEntities_eq saveMemory_eq loop_has_own loop_other)

lemma tool_switch_grows:
  "grows (overwritten_names req) (memory w) (memory (snd (tool_switch req w)))"
proof -
  consider (ce) "tool_name req = ''create_entities''"
    | (cr) "tool_name req = ''create_relations''"
    | (ao) "tool_name req = ''add_observations''"
    | (sn) "tool_name req = ''search_nodes''"
    | (rg) "tool_name req = ''read_graph''"
    | (other) "tool_name req \<notin> set [''create_entities'', ''create_relations'', ''add_observations'',
                                ''search_nodes'', ''read_graph'']"
    by auto
  then show ?thesis
  proof cases
    case ce
    show ?thesis
    proof (cases "arguments req")
      case None
      then show ?thesis by (simp add: tool_switch_def ce with_arguments_def throw_def grows_refl)
    next
      case (Some args)
      show ?thesis
      proof (cases "arg_entities args")
        case None
        then show ?thesis
          by (simp add: tool_switch_def ce with_arguments_def Some createEntities_def throw_def grows_refl)
      next
        case (Some es)
        then show ?thesis
          using createEntities_grows[of es w] \<open>arguments req = Some args\<close>
          by (simp add: tool_switch_def ce with_arguments_def overwritten_names_def)
      qed
    qed
  next
    case cr
    then show ?thesis
      using createRelations_grows
      by (cases "arguments req") (simp_all add: tool_switch_def with_arguments_def throw_def grows_refl)
  next
    case ao
    then show ?thesis
      using addObservations_grows
      by (cases "arguments req") (simp_all add: tool_switch_def with_arguments_def throw_def grows_refl)
  next
    case sn
    then show ?thesis
      using searches_keep_world
      by (cases "arguments req") (simp_all add: tool_switch_def with_arguments_def throw_def grows_refl)
  next
    case rg
    then show ?thesis
      by (simp add: tool_switch_def readGraph_def grows_refl)
  next
    case other
    then show ?thesis
      by (simp add: tool_switch_def throw_def grows_refl)
  qed
qed

lemma callTool_grows:
  "grows (overwritten_names req) (memory w) (memory (snd (callTool wording req w)))"
  using tool_switch_grows[of req w] by (simp add: callTool_def snd_try_catch_return)

lemma handleToolCall_grows:
  "grows (case ps of None \<Rightarrow> [] | Some req \<Rightarrow> overwritten_names req) (memory w)
     (memory (snd (handleToolCall ps w)))"
proof (cases ps)
  case None
  then show ?thesis by (simp add: handleToolCall_def throw_def grows_refl)
next
  case (Some req)
  consider (ce) "tool_name req = ''create_entities''"
    | (sn) "tool_name req = ''search_nodes''"
    | (rg) "tool_name req = ''read_graph''"
    | (other) "tool_name req \<notin> set [''create_entities'', ''search_nodes'', ''read_graph'']"
    by auto
  then show ?thesis
  proof cases
    case ce
    show ?thesis
    proof (cases "arguments req")
      case None
      then show ?thesis
        by (simp add: Some handleToolCall_def ce with_arguments_def throw_def grows_refl)
    next
      case args: (Some args)
      show ?thesis
      proof (cases "arg_entities args")
        case None
        then show ?thesis
          by (simp add: Some handleToolCall_def ce with_arguments_def args Simple_createEntities_def
              throw_def grows_refl)
      next
        case es: (Some es)
        then show ?thesis
          using Simple_createEntities_grows[of es w]
          by (simp add: Some handleToolCall_def ce with_arguments_def args overwritten_names_def)
      qed
    qed
  next
    case sn
    then show ?thesis
      using searches_keep_world
      by (cases "arguments req")
         (simp_all add: Some handleToolCall_def with_arguments_def throw_def grows_refl)
  next
    case rg
    then show ?thesis
      by (simp add: Some handleToolCall_def Simple_readGraph_def grows_refl)
  next
    case other
    then show ?thesis
      by (simp add: Some handleToolCall_def throw_def grows_refl)
  qed
qed


lemma handleRequest_grows:
  "grows (rpc_overwritten_names rpc) (memory w) (memory (snd (handleRequest wording rpc w)))"
proof -
  have "snd (handleRequest wording rpc w) =
          (if rpc_method rpc = ''tools/call'' then snd (handleToolCall (rpc_params rpc) w) else w)"
    by (simp add: handleRequest_def snd_try_catch_return' return_def throw_def)
  then show ?thesis
    using handleToolCall_grows[of "rpc_params rpc" w]
    by (auto simp: rpc_overwritten_names_def grows_refl)
qed

text \<open>
  Claim C9, as amended. Over every tool call of either server and every resource read:
  the relations before are a prefix of the relations after; every entity name present
  before is present after; and the observations of an existing entity are a prefix of its
  observations after, unless the call is \<open>create_entities\<close> and names that entity.
\<close>

theorem existing_data_is_kept:
  assumes "map_of (own (entities (memory w))) k = Some e"
  shows "prefix (relations (memory w)) (relations (memory (snd (callTool wording req w))))
     \<and> has_own (own (entities (memory (snd (callTool wording req w))))) k
     \<and> (k \<notin> set (overwritten_names req) \<longrightarrow>
          (\<exists>e'. map_of (own (entities (memory (snd (callTool wording req w))))) k = Some e'
               \<and> prefix (observations e) (observations e')))
     \<and> prefix (relations (memory w)) (relations (memory (snd (handleRequest wording rpc w))))
     \<and> has_own (own (entities (memory (snd (handleRequest wording rpc w))))) k
     \<and> (k \<notin> set (rpc_overwritten_names rpc) \<longrightarrow>
          (\<exists>e'. map_of (own (entities (memory (snd (handleRequest wording rpc w))))) k = Some e'
               \<and> prefix (observations e) (observations e')))
     \<and> snd (readResource uri w) = w"
proof -
  have h: "has_own (own (entities (memory w))) k"
    using assms by (simp add: has_own_def)
  have r: "snd (readResource uri w) = w"
    by (simp add: readResource_def)
  show ?thesis
    using callTool_grows[of req w wording] handleRequest_grows[of rpc w wording] assms h r
    unfolding grows_def by blast
qed

text \<open>
  Claim C1, as amended. When an input list is given to \<open>createEntities\<close> and the name \<open>k\<close>
  of an existing entity occurs in it, the graph afterwards maps \<open>k\<close> to a fresh entity
  built from the last input item of that name alone: its \<open>entityType\<close>, its
  \<open>observations\<close> (the empty sequence when the field is absent or falsy), and the clock
  reading taken when that item was processed. Nothing of the prior entity remains. The
  same holds for SimpleMemoryServer.
\<close>

theorem createEntities_overwrites:
  assumes "has_own (own (entities (memory w))) k"
    and "i < length es" and "in_name (es ! i) = k"
    and "k \<notin> set (map in_name (drop (Suc i) es))"
  shows "map_of (own (entities (memory (snd (createEntities (Some es) w))))) k =
           Some \<lparr>name = k, entityType = in_entityType (es ! i),
                 observations = (case in_observations (es ! i) of None \<Rightarrow> [] | Some os \<Rightarrow> os),
                 createdAt = clock w (ticks w + i)\<rparr>
       \<and> map_of (own (entities (memory (snd (Simple_createEntities (Some es) w))))) k =
           Some \<lparr>name = k, entityType = in_entityType (es ! i),
                 observations = (case in_observations (es ! i) of None \<Rightarrow> [] | Some os \<Rightarrow> os),
                 createdAt = clock w (ticks w + i)\<rparr>"
proof -
  have later: "\<forall>j. i < j \<and> j < length es \<longrightarrow> in_name (es ! j) \<noteq> k"
  proof (intro allI impI)
    fix j assume j: "i < j \<and> j < length es"
    then have "es ! j = drop (Suc i) es ! (j - Suc i)" "j - Suc i < length (drop (Suc i) es)"
      by auto
    then have "in_name (es ! j) \<in> set (map in_name (drop (Suc i) es))"
      by (metis length_map nth_map nth_mem)
    with assms(4) show "in_name (es ! j) \<noteq> k" by auto
  qed
  show ?thesis
    using loop_last[of w k i es] assms(1,2,3) later
    by (simp add: memory_createEntities Simple_createEntities_eq saveMemory_eq new_entity_def)
qed

lemma example_loop:
  "memory (snd (createEntities_loop [input_A1, input_A2] (example_world graph_A))) =
     \<lparr>entities = \<lparr>own = [(''A'', \<lparr>name = ''A'', entityType = ''T3'', observations = [],
                                  createdAt = ''2024-01-01T00:00:00.001Z''\<rparr>)], proto = None\<rparr>,
      relations = [], root_observations = EmptyObject\<rparr>"
  by (simp add: loop_Cons loop_Nil example_world_def graph_A_def input_A1_def input_A2_def
      set_property_def define_own_def has_own_def new_entity_def example_clock_def
      del: createEntities_loop.simps)

theorem createEntities_overwrites_witness:
  "has_own (own (entities (memory (example_world graph_A)))) ''A''
   \<and> (1::nat) < length [input_A1, input_A2]
   \<and> in_name ([input_A1, input_A2] ! 1) = ''A''
   \<and> ''A'' \<notin> set (map in_name (drop (Suc 1) [input_A1, input_A2]))
   \<and> map_of (own (entities (memory (snd (createEntities (Some [input_A1, input_A2])
                                            (example_world graph_A)))))) ''A''
       = Some \<lparr>name = ''A'', entityType = ''T3'', observations = [],
               createdAt = ''2024-01-01T00:00:00.001Z''\<rparr>"
proof -
  have h: "has_own (own (entities (memory (example_world graph_A)))) ''A''"
    "(1::nat) < length [input_A1, input_A2]"
    "in_name ([input_A1, input_A2] ! 1) = ''A''"
    "''A'' \<notin> set (map in_name (drop (Suc 1) [input_A1, input_A2]))"
    by (simp_all add: example_world_def graph_A_def has_own_def input_A2_def)
  show ?thesis
    using h createEntities_overwrites[OF h]
    by (simp add: example_world_def input_A2_def example_clock_def)
qed

text \<open>
  Claim C1 as stated fails when a name occurs twice in the input: the entity stored
  under A is not the one built from the first item named A.
\<close>

theorem createEntities_earlier_item_counterexample:
  "input_A1 \<in> set [input_A1, input_A2]
   \<and> has_own (own (entities (memory (example_world graph_A)))) (in_name input_A1)
   \<and> map_option entityType
        (map_of (own (entities (memory (snd (createEntities (Some [input_A1, input_A2])
                                              (example_world graph_A)))))) (in_name input_A1))
       \<noteq> Some (in_entityType input_A1)
   \<and> map_option observations
        (map_of (own (entities (memory (snd (createEntities (Some [input_A1, input_A2])
                                              (example_world graph_A)))))) (in_name input_A1))
       \<noteq> in_observations input_A1"
proof -
  have "memory (snd (createEntities (Some [input_A1, input_A2]) (example_world graph_A))) =
     \<lparr>entities = \<lparr>own = [(''A'', \<lparr>name = ''A'', entityType = ''T3'', observations = [],
                                  createdAt = ''2024-01-01T00:00:00.001Z''\<rparr>)], proto = None\<rparr>,
      relations = [], root_observations = EmptyObject\<rparr>"
    by (simp only: memory_createEntities example_loop)
  then show ?thesis
    by (simp add: example_world_def graph_A_def has_own_def input_A1_def)
qed



lemma show_nat_1: "show_nat (Suc 0) = ''1''"
  by (simp add: show_nat.simps digit_def)

theorem save_failure_is_swallowed_witness:
  "io (failing_world graph_A) (io_count (failing_world graph_A)) = IoError None
   \<and> fst (createEntities (Some [input_A1]) (failing_world graph_A))
       = Inr ''Created 1 entities successfully''
   \<and> fst (createEntities (Some [input_A1]) (failing_world graph_A))
       = fst (createEntities (Some [input_A1]) ((failing_world graph_A)\<lparr>io := \<lambda>k. IoOk\<rparr>))
   \<and> memory (snd (createEntities (Some [input_A1]) (failing_world graph_A)))
       = memory (snd (createEntities (Some [input_A1]) ((failing_world graph_A)\<lparr>io := \<lambda>k. IoOk\<rparr>)))
   \<and> disk (snd (createEntities (Some [input_A1]) (failing_world graph_A))) = None"
proof -
  have h: "io (failing_world graph_A) (io_count (failing_world graph_A)) = IoError None"
    by (simp add: failing_world_def example_world_def)
  note t = save_failure_is_swallowed[OF h, of "[input_A1]" "[]" "[]"]
  have 1: "fst (createEntities (Some [input_A1]) (failing_world graph_A))
       = Inr (''Created '' @ show_nat (length [input_A1]) @ '' entities successfully'')"
    using t by blast
  have 2: "fst (createEntities (Some [input_A1]) (failing_world graph_A))
       = fst (createEntities (Some [input_A1]) ((failing_world graph_A)\<lparr>io := \<lambda>k. IoOk\<rparr>))"
    using t by blast
  have 3: "memory (snd (createEntities (Some [input_A1]) (failing_world graph_A)))
       = memory (snd (createEntities (Some [input_A1]) ((failing_world graph_A)\<lparr>io := \<lambda>k. IoOk\<rparr>)))"
    using t by blast
  have 4: "disk (snd (createEntities (Some [input_A1]) (failing_world graph_A))) = None"
    using t by blast
  have 5: "fst (createEntities (Some [input_A1]) (failing_world graph_A))
       = Inr ''Created 1 entities successfully''"
    using 1 by (simp add: show_nat_1)
  show ?thesis
    using h 5 2 3 4 by blast
qed

lemma unknown_names_example:
  "callTool example_wording unknown_request (example_world graph_A) =
       (Inr (Content ''Error executing delete_entities: Unknown tool: delete_entities''),
        example_world graph_A)
   \<and> handleRequest example_wording \<lparr>rpc_method = ''tools/call'', rpc_params = Some unknown_request\<rparr>
         (example_world graph_A) =
       (Inr (ErrorMessage ''Unknown tool: delete_entities''), example_world graph_A)
   \<and> handleRequest example_wording \<lparr>rpc_method = ''resources/list'', rpc_params = None\<rparr>
         (example_world graph_A) =
       (Inr (ErrorMessage ''Unknown method: resources/list''), example_world graph_A)"
  using unknown_names_are_echoed[of unknown_request example_wording "example_world graph_A"
      "\<lparr>rpc_method = ''tools/call'', rpc_params = Some unknown_request\<rparr>"]
    unknown_names_are_echoed[of unknown_request example_wording "example_world graph_A"
      "\<lparr>rpc_method = ''resources/list'', rpc_params = None\<rparr>"]
  by (simp add: unknown_request_def)

theorem existing_data_is_kept_witness:
  "map_of (own (entities (memory (example_world graph_A)))) ''A'' = Some entity_A
   \<and> ''A'' \<notin> set (overwritten_names (observe_request ''A''))
   \<and> ''A'' \<notin> set (rpc_overwritten_names \<lparr>rpc_method = ''tools/call'', rpc_params = Some (observe_request ''A'')\<rparr>)
   \<and> prefix (relations (memory (example_world graph_A)))
        (relations (memory (snd (callTool example_wording (observe_request ''A'')
                                   (example_world graph_A)))))
   \<and> (\<exists>e'. map_of (own (entities (memory (snd (callTool example_wording (observe_request ''A'')
                                                  (example_world graph_A)))))) ''A'' = Some e'
          \<and> prefix (observations entity_A) (observations e'))
   \<and> (\<exists>e'. map_of (own (entities (memory (snd (handleRequest example_wording
                         \<lparr>rpc_method = ''tools/call'', rpc_params = Some (observe_request ''A'')\<rparr>
                         (example_world graph_A)))))) ''A'' = Some e'
          \<and> prefix (observations entity_A) (observations e'))"
proof -
  have h: "map_of (own (entities (memory (example_world graph_A)))) ''A'' = Some entity_A"
    by (simp add: example_world_def graph_A_def)
  have n: "''A'' \<notin> set (overwritten_names (observe_request ''A''))"
    "''A'' \<notin> set (rpc_overwritten_names \<lparr>rpc_method = ''tools/call'', rpc_params = Some (observe_request ''A'')\<rparr>)"
    by (simp_all add: overwritten_names_def rpc_overwritten_names_def observe_request_def)
  show ?thesis
    using h n existing_data_is_kept[OF h, of example_wording "observe_request ''A''"
        "\<lparr>rpc_method = ''tools/call'', rpc_params = Some (observe_request ''A'')\<rparr>" "''x''"]
    by simp
qed

text \<open>
  Claim C9 as stated fails for \<open>create_entities\<close> on an existing name: the observation x
  of the entity A is gone afterwards.
\<close>

theorem createEntities_discards_observations_counterexample:
  "map_of (own (entities (memory (example_world graph_A)))) ''A'' = Some entity_A
   \<and> map_of (own (entities (memory (snd (callTool example_wording create_A_request
                                            (example_world graph_A)))))) ''A''
       = Some \<lparr>name = ''A'', entityType = ''T2'', observations = [''y''],
               createdAt = ''2024-01-01T00:00:00.000Z''\<rparr>
   \<and> \<not> prefix (observations entity_A) [''y'']"
proof -
  have "snd (callTool example_wording create_A_request (example_world graph_A))
          = snd (createEntities (Some [input_A1]) (example_world graph_A))"
    by (simp add: callTool_def snd_try_catch_return tool_switch_def create_A_request_def
        with_arguments_def no_arguments_def)
  moreover have "memory (snd (createEntities_loop [input_A1] (example_world graph_A))) =
     \<lparr>entities = \<lparr>own = [(''A'', \<lparr>name = ''A'', entityType = ''T2'', observations = [''y''],
                                  createdAt = ''2024-01-01T00:00:00.000Z''\<rparr>)], proto = None\<rparr>,
      relations = [], root_observations = EmptyObject\<rparr>"
    by (simp add: loop_Cons loop_Nil example_world_def graph_A_def input_A1_def
      set_property_def define_own_def has_own_def new_entity_def example_clock_def
      del: createEntities_loop.simps)
  ultimately show ?thesis
    by (simp add: memory_createEntities)
       (simp add: example_world_def graph_A_def entity_A_def)
qed

lemma push_observations_unknown:
  "get_property (entities (memory w)) (entityName obs) = Undefined \<Longrightarrow>
   push_observations obs w = (Inr (), w)"
  by (simp add: push_observations_def)

lemma push_observations_own:
  "map_of (own (entities (memory w))) (entityName obs) = Some e \<Longrightarrow>
   fst (push_observations obs w) = Inr ()
   \<and> map_of (own (entities (memory (snd (push_observations obs w))))) (entityName obs)
       = Some (e\<lparr>observations := observations e @ contents obs\<rparr>)"
  by (simp add: push_observations_def get_property_def Let_def map_of_replace_own has_own_def)

text \<open>
  Claim C2 (a defect of the code). The name \<open>constructor\<close> is no entity of the empty graph,
  yet \<open>this.memory.entities['constructor']\<close> is truthy, being inherited from
  \<open>Object.prototype\<close>. \<open>addObservations\<close> therefore does not skip the item: it throws a
  TypeError, nothing is saved and the caller receives an error text instead of the count.
\<close>

theorem addObservations_inherited_name_throws:
  "get_property (entities (memory (example_world empty_graph))) ''constructor'' = Builtin
   \<and> \<not> has_own (own (entities (memory (example_world empty_graph)))) ''constructor''
   \<and> addObservations (Some [\<lparr>entityName = ''constructor'', contents = [''z'']\<rparr>])
        (example_world empty_graph)
       = (Inl (TypeError (ReadOfUndefined ''push'')), example_world empty_graph)
   \<and> callTool example_wording (observe_request ''constructor'') (example_world empty_graph)
       = (Inr (Content (''Error executing add_observations: ''
                          @ ''Cannot read properties of undefined (reading ''
                          @ [CHR 0x27] @ ''push'' @ [CHR 0x27] @ '')'')),
          example_world empty_graph)"
proof -
  have g: "get_property (entities (memory (example_world empty_graph))) ''constructor'' = Builtin"
    by (simp add: example_world_def empty_graph_def get_property_def inherited_builtin_def
        Object_prototype_keys_def)
  have a: "addObservations (Some [\<lparr>entityName = ''constructor'', contents = [''z'']\<rparr>])
        (example_world empty_graph)
       = (Inl (TypeError (ReadOfUndefined ''push'')), example_world empty_graph)"
    using g by (simp add: addObservations_eq addObservations_loop_Cons push_observations_def
        del: addObservations_loop.simps)
  show ?thesis
    using g a
    by (simp add: callTool_def tool_switch_def observe_request_def with_arguments_def
        no_arguments_def try_catch_def bind_def return_def message_def example_wording_def)
       (simp add: example_world_def empty_graph_def has_own_def)
qed



section \<open>The round trip through JSON text\<close>

subsection \<open>the tokens of written text\<close>

lemma hex_cases:
  assumes "d < (16::nat)"
  shows "d = 0 \<or> d = 1 \<or> d = 2 \<or> d = 3 \<or> d = 4 \<or> d = 5 \<or> d = 6 \<or> d = 7 \<or> d = 8
         \<or> d = 9 \<or> d = 10 \<or> d = 11 \<or> d = 12 \<or> d = 13 \<or> d = 14 \<or> d = 15"
  using assms by arith

lemma hex_val_hex_digit: "d < 16 \<Longrightarrow> hex_val (hex_digit d) = Some d"
  using hex_cases[of d] by (auto simp: hex_val_def hex_digit_def)


lemma hex_val_zero: "hex_val (CHR ''0'') = Some 0"
  by (simp add: hex_val_def)

lemma lex_unicode_escape:
  assumes "(of_char c :: nat) < 32"
  shows "lex (InString acc)
           ([CHR 0x5C, CHR ''u'', CHR ''0'', CHR ''0'',
             hex_digit ((of_char c :: nat) div 16), hex_digit ((of_char c :: nat) mod 16)] @ rest)
         = lex (InString (acc @ [c])) rest"
proof -
  let ?n = "of_char c :: nat"
  have d: "?n div 16 < 16" "?n mod 16 < 16" using assms by auto
  have v: "16 * (?n div 16) + ?n mod 16 = ?n" by simp
  have lt: "?n < 256" using assms by simp
  show ?thesis
    by (simp add: hex_val_zero hex_val_hex_digit[OF d(1)] hex_val_hex_digit[OF d(2)] v lt)
qed

lemma lex_escape_unit:
  "lex (InString acc) (escape_unit c @ rest) = lex (InString (acc @ [c])) rest"
proof -
  consider (b) "c = CHR 0x08" | (t) "c = CHR 0x09" | (n) "c = CHR 0x0A" | (f) "c = CHR 0x0C"
    | (r) "c = CHR 0x0D" | (q) "c = CHR 0x22" | (s) "c = CHR 0x5C"
    | (ctl) "c \<notin> {CHR 0x08, CHR 0x09, CHR 0x0A, CHR 0x0C, CHR 0x0D, CHR 0x22, CHR 0x5C}"
            "(of_char c :: nat) < 32"
    | (plain) "c \<notin> {CHR 0x08, CHR 0x09, CHR 0x0A, CHR 0x0C, CHR 0x0D, CHR 0x22, CHR 0x5C}"
            "\<not> (of_char c :: nat) < 32"
    by blast
  then show ?thesis
  proof cases
    case ctl
    have "escape_unit c = [CHR 0x5C, CHR ''u'', CHR ''0'', CHR ''0'',
             hex_digit ((of_char c :: nat) div 16), hex_digit ((of_char c :: nat) mod 16)]"
      using ctl by (simp add: escape_unit_def Let_def)
    then show ?thesis
      using lex_unicode_escape[OF ctl(2), of acc rest] by simp
  next
    case plain
    then show ?thesis by (simp add: escape_unit_def Let_def)
  qed (simp_all add: escape_unit_def)
qed

lemma lex_string_body:
  "lex (InString acc) (concat (map escape_unit s) @ CHR 0x22 # rest)
     = emit (TString (acc @ s)) (lex Start rest)"
proof (induction s arbitrary: acc)
  case Nil
  then show ?case by simp
next
  case (Cons c s)
  have "lex (InString acc) (concat (map escape_unit (c # s)) @ CHR 0x22 # rest)
        = lex (InString acc) (escape_unit c @ (concat (map escape_unit s) @ CHR 0x22 # rest))"
    by simp
  also have "\<dots> = lex (InString (acc @ [c])) (concat (map escape_unit s) @ CHR 0x22 # rest)"
    by (rule lex_escape_unit)
  also have "\<dots> = emit (TString ((acc @ [c]) @ s)) (lex Start rest)"
    by (rule Cons.IH)
  finally show ?case by simp
qed

lemma lex_quote_string:
  "lex Start (quote_string s @ rest) = emit (TString s) (lex Start rest)"
  using lex_string_body[of "[]" s rest]
  by (simp add: quote_string_def start_char_def is_whitespace_def)

lemma lex_whitespace:
  "list_all is_whitespace ws \<Longrightarrow> lex Start (ws @ rest) = lex Start rest"
  by (induction ws) (simp_all add: start_char_def)

lemma emit_all_simps:
  "emit_all [] r = r"
  "emit t (emit_all ts r) = emit_all (t # ts) r"
  "emit_all ts (emit_all us r) = emit_all (ts @ us) r"
  "emit_all ts (emit t r) = emit_all (ts @ [t]) r"
  "emit t r = emit_all [t] r"
  by (cases r; simp add: emit_all_def emit_def)+


lemma join_Cons: "join sep (x # xs) = x @ concat (map (\<lambda>y. sep @ y) xs)"
  by (induction xs arbitrary: x) auto

lemma lex_punctuation:
  "lex Start (CHR ''['' # x) = emit TLBracket (lex Start x)"
  "lex Start (CHR '']'' # x) = emit TRBracket (lex Start x)"
  "lex Start (CHR ''{'' # x) = emit TLBrace (lex Start x)"
  "lex Start (CHR ''}'' # x) = emit TRBrace (lex Start x)"
  "lex Start (CHR '','' # x) = emit TComma (lex Start x)"
  "lex Start (CHR '':'' # x) = emit TColon (lex Start x)"
  "lex Start (CHR '' '' # x) = lex Start x"
  "lex Start (CHR 0x0A # x) = lex Start x"
  by (simp_all add: start_char_def is_whitespace_def)

subsection \<open>numbers and literals\<close>

lemma lex_number_end:
  assumes "ends_value rest" "st = NZero \<or> st = NInt"
  shows "lex (InNumber st lx) rest = emit (TNumber lx) (lex Start rest)"
proof (cases rest)
  case Nil
  then show ?thesis using assms(2) by (auto simp: num_final_def emit_def)
next
  case (Cons c cs)
  then have c: "c = CHR '','' \<or> c = CHR 0x0A" using assms(1) by (simp add: ends_value_def)
  have n: "num_step NZero (CHR '','') = None" "num_step NInt (CHR '','') = None"
    "num_step NZero (CHR 0x0A) = None" "num_step NInt (CHR 0x0A) = None"
    by (simp_all add: num_step_def is_digit_def)
  have f: "num_final NZero" "num_final NInt" by (simp_all add: num_final_def)
  have s: "start_char (CHR '','') = Emit TComma" "start_char (CHR 0x0A) = Skip"
    by (simp_all add: start_char_def is_whitespace_def)
  show ?thesis
    using c assms(2) by (auto simp: Cons n f s)
qed

lemma lex_digits:
  "list_all is_digit ds \<Longrightarrow> ends_value rest \<Longrightarrow>
   lex (InNumber NInt lx) (ds @ rest) = emit (TNumber (lx @ ds)) (lex Start rest)"
proof (induction ds arbitrary: lx)
  case Nil
  then show ?case by (simp add: lex_number_end)
next
  case (Cons d ds)
  have "num_step NInt d = Some NInt" using Cons.prems(1) by (simp add: num_step_def)
  then have "lex (InNumber NInt lx) ((d # ds) @ rest) = lex (InNumber NInt (lx @ [d])) (ds @ rest)"
    by simp
  also have "\<dots> = emit (TNumber ((lx @ [d]) @ ds)) (lex Start rest)"
    using Cons.prems by (intro Cons.IH) simp_all
  finally show ?case by simp
qed

lemma start_char_digit:
  assumes "is_digit d" "d \<noteq> CHR ''0''"
  shows "start_char d = Enter (InNumber NInt [d])"
proof -
  have n: "\<not> is_digit c"
    if "c \<in> set [CHR '' '', CHR 0x09, CHR 0x0A, CHR 0x0D, CHR ''{'', CHR ''}'', CHR ''['',
                  CHR '']'', CHR '','', CHR '':'', CHR 0x22, CHR ''-'']" for c
    using that by (auto simp: is_digit_def)
  have "d \<notin> set [CHR '' '', CHR 0x09, CHR 0x0A, CHR 0x0D, CHR ''{'', CHR ''}'', CHR ''['',
                  CHR '']'', CHR '','', CHR '':'', CHR 0x22, CHR ''-'']"
    using n assms(1) by blast
  then show ?thesis using assms by (simp add: start_char_def is_whitespace_def)
qed

lemma safe_integer_cases:
  assumes "safe_integer l"
  shows "l = ''0''
       \<or> (\<exists>d ds. l = d # ds \<and> is_digit d \<and> d \<noteq> CHR ''0'' \<and> d \<noteq> CHR ''-'' \<and> list_all is_digit ds)
       \<or> (\<exists>d ds. l = CHR ''-'' # d # ds \<and> is_digit d \<and> d \<noteq> CHR ''0'' \<and> list_all is_digit ds)"
proof (cases l)
  case Nil
  then show ?thesis using assms by (simp add: safe_integer_def)
next
  case (Cons c cs)
  show ?thesis
  proof (cases "c = CHR ''-''")
    case True
    then show ?thesis
      using assms Cons by (cases cs) (auto simp: safe_integer_def Let_def)
  next
    case False
    then show ?thesis
      using assms Cons by (auto simp: safe_integer_def Let_def)
  qed
qed

lemma lex_safe_integer:
  assumes "safe_integer l" "ends_value rest"
  shows "lex Start (l @ rest) = emit (TNumber l) (lex Start rest)"
proof -
  consider (zero) "l = ''0''"
    | (pos) d ds where "l = d # ds" "is_digit d" "d \<noteq> CHR ''0''" "list_all is_digit ds"
    | (neg) d ds where "l = CHR ''-'' # d # ds" "is_digit d" "d \<noteq> CHR ''0''" "list_all is_digit ds"
    using safe_integer_cases[OF assms(1)] by blast
  then show ?thesis
  proof cases
    case zero
    have "lex Start (l @ rest) = lex (InNumber NZero ''0'') rest"
      by (simp add: zero start_char_def is_whitespace_def)
    then show ?thesis
      using lex_number_end[OF assms(2), of NZero "''0''"] zero by simp
  next
    case pos
    have "lex Start (l @ rest) = lex (InNumber NInt [d]) (ds @ rest)"
      by (simp add: pos(1) start_char_digit[OF pos(2,3)])
    then show ?thesis
      using lex_digits[OF pos(4) assms(2), of "[d]"] pos(1) by simp
  next
    case neg
    have "num_step NMinus d = Some NInt" using neg(2,3) by (simp add: num_step_def)
    then have "lex Start (l @ rest) = lex (InNumber NInt [CHR ''-'', d]) (ds @ rest)"
      by (simp add: neg(1) start_char_def is_whitespace_def)
    then show ?thesis
      using lex_digits[OF neg(4) assms(2), of "[CHR ''-'', d]"] neg(1) by simp
  qed
qed

lemma lex_literals:
  "lex Start (''null'' @ rest) = emit TNull (lex Start rest)"
  "lex Start (''true'' @ rest) = emit TTrue (lex Start rest)"
  "lex Start (''false'' @ rest) = emit TFalse (lex Start rest)"
  by (simp_all add: start_char_def is_whitespace_def is_digit_def)

subsection \<open>arrays and objects\<close>

lemma ends_value_simps:
  "ends_value []" "ends_value (CHR '','' # x)" "ends_value (CHR 0x0A # x)"
  by (simp_all add: ends_value_def)

lemma ends_value_separated:
  "ends_value tail \<Longrightarrow> ends_value (concat (map (\<lambda>y. (CHR '','' # ws) @ f y) xs) @ tail)"
  by (cases xs) (simp_all add: ends_value_def)

lemma lex_separated:
  assumes each: "\<And>x rest. x \<in> set xs \<Longrightarrow> ends_value rest \<Longrightarrow>
                   lex Start (f x @ rest) = emit_all (g x) (lex Start rest)"
    and ws: "list_all is_whitespace ws"
    and tail: "ends_value tail"
  shows "lex Start (concat (map (\<lambda>y. (CHR '','' # ws) @ f y) xs) @ tail)
           = emit_all (concat (map (\<lambda>x. TComma # g x) xs)) (lex Start tail)"
  using each
proof (induction xs)
  case Nil
  then show ?case by (simp add: emit_all_simps)
next
  case (Cons x xs)
  have "lex Start (concat (map (\<lambda>y. (CHR '','' # ws) @ f y) (x # xs)) @ tail)
        = emit TComma (lex Start (ws @ (f x @ concat (map (\<lambda>y. (CHR '','' # ws) @ f y) xs) @ tail)))"
    by (simp add: lex_punctuation del: lex.simps)
  also have "\<dots> = emit TComma (lex Start (f x @ concat (map (\<lambda>y. (CHR '','' # ws) @ f y) xs) @ tail))"
    by (simp only: lex_whitespace[OF ws])
  also have "\<dots> = emit TComma (emit_all (g x)
        (lex Start (concat (map (\<lambda>y. (CHR '','' # ws) @ f y) xs) @ tail)))"
    using Cons.prems[of x "concat (map (\<lambda>y. (CHR '','' # ws) @ f y) xs) @ tail"]
      ends_value_separated[OF tail, of ws f xs]
    by (simp del: lex.simps)
  also have "\<dots> = emit TComma (emit_all (g x)
        (emit_all (concat (map (\<lambda>x. TComma # g x) xs)) (lex Start tail)))"
    using Cons.IH Cons.prems by (simp del: lex.simps)
  finally show ?case by (simp add: emit_all_simps(2,3))
qed

lemma whitespace_gap: "list_all is_whitespace ind \<Longrightarrow> list_all is_whitespace (ind @ gap)"
  by (simp add: gap_def is_whitespace_def)

lemma lex_closing:
  assumes "list_all is_whitespace ind"
  shows "lex Start (CHR 0x0A # ind @ CHR '']'' # rest) = emit TRBracket (lex Start rest)"
    and "lex Start (CHR 0x0A # ind @ CHR ''}'' # rest) = emit TRBrace (lex Start rest)"
  using lex_whitespace[OF assms] by (simp_all add: lex_punctuation del: lex.simps)

lemma lex_serialize:
  "exact v \<Longrightarrow> list_all is_whitespace ind \<Longrightarrow> ends_value rest \<Longrightarrow>
   lex Start (serialize ind v @ rest) = emit_all (toks v) (lex Start rest)"
proof (induction v arbitrary: ind rest)
  case JNull
  show ?case using lex_literals(1)[of rest] by (simp add: emit_all_simps(5) del: lex.simps)
next
  case (JBool b)
  show ?case
    using lex_literals(2,3)[of rest] by (cases b) (simp_all add: emit_all_simps(5) del: lex.simps)
next
  case (JNum l)
  then show ?case by (simp add: lex_safe_integer emit_all_simps(5) del: lex.simps)
next
  case (JStr s)
  then show ?case by (simp add: lex_quote_string emit_all_simps(5))
next
  case (JArr vs)
  show ?case
  proof (cases vs)
    case Nil
    then show ?thesis by (simp add: lex_punctuation emit_all_simps del: lex.simps)
  next
    case (Cons v rest_vs)
    let ?ind = "ind @ gap"
    have ws: "list_all is_whitespace ?ind" using JArr.prems(2) by (rule whitespace_gap)
    have each: "\<And>x r. x \<in> set vs \<Longrightarrow> ends_value r \<Longrightarrow>
          lex Start (serialize ?ind x @ r) = emit_all (toks x) (lex Start r)"
      using JArr.IH JArr.prems(1) ws by (auto simp: list_all_iff)
    have tl: "ends_value (CHR 0x0A # ind @ CHR '']'' # rest)" by (rule ends_value_simps)
    have "lex Start (serialize ind (JArr vs) @ rest)
          = emit TLBracket (lex Start (serialize ?ind v @
               (concat (map (\<lambda>y. (CHR '','' # CHR 0x0A # ?ind) @ serialize ?ind y) rest_vs)
                @ (CHR 0x0A # ind @ CHR '']'' # rest))))"
      using lex_whitespace[OF ws]
      by (simp add: Cons join_Cons lex_punctuation comp_def del: lex.simps)
    also have "\<dots> = emit TLBracket (emit_all (toks v)
          (lex Start (concat (map (\<lambda>y. (CHR '','' # CHR 0x0A # ?ind) @ serialize ?ind y) rest_vs)
                @ (CHR 0x0A # ind @ CHR '']'' # rest))))"
      using each[of v "concat (map (\<lambda>y. (CHR '','' # CHR 0x0A # ?ind) @ serialize ?ind y) rest_vs)
                @ (CHR 0x0A # ind @ CHR '']'' # rest)"]
        ends_value_separated[OF tl, of "CHR 0x0A # ?ind" "serialize ?ind" rest_vs] Cons
      by (simp del: lex.simps)
    also have "\<dots> = emit TLBracket (emit_all (toks v)
          (emit_all (concat (map (\<lambda>x. TComma # toks x) rest_vs))
             (lex Start (CHR 0x0A # ind @ CHR '']'' # rest))))"
      using lex_separated[of rest_vs "serialize ?ind" toks "CHR 0x0A # ?ind", OF _ _ tl] each Cons ws
      by (simp add: is_whitespace_def del: lex.simps)
    also have "\<dots> = emit_all (toks (JArr vs)) (lex Start rest)"
      by (simp add: Cons lex_closing[OF JArr.prems(2)] emit_all_simps(2,3,4) del: lex.simps)
    finally show ?thesis .
  qed
next
  case (JObj kvs)
  show ?case
  proof (cases kvs)
    case Nil
    then show ?thesis by (simp add: lex_punctuation emit_all_simps del: lex.simps)
  next
    case (Cons kv rest_kvs)
    let ?ind = "ind @ gap"
    let ?f = "\<lambda>kv. quote_string (fst kv) @ '': '' @ serialize ?ind (snd kv)"
    let ?g = "\<lambda>kv. TString (fst kv) # TColon # toks (snd kv)"
    have ws: "list_all is_whitespace ?ind" using JObj.prems(2) by (rule whitespace_gap)
    have tl: "ends_value (CHR 0x0A # ind @ CHR ''}'' # rest)" by (rule ends_value_simps)
    have each: "lex Start (?f x @ r) = emit_all (?g x) (lex Start r)"
      if "x \<in> set kvs" "ends_value r" for x r
    proof -
      have "exact (snd x)" using JObj.prems(1) that(1) by (auto simp: list_all_iff)
      moreover have "snd x \<in> Basic_BNFs.snds x" by (cases x) simp
      ultimately have "lex Start (serialize ?ind (snd x) @ r) = emit_all (toks (snd x)) (lex Start r)"
        using JObj.IH[OF that(1)] ws that(2) by blast
      then show ?thesis
        by (simp add: lex_quote_string lex_punctuation emit_all_simps(2) del: lex.simps)
    qed
    have "lex Start (serialize ind (JObj kvs) @ rest)
          = emit TLBrace (lex Start (?f kv @
               (concat (map (\<lambda>y. (CHR '','' # CHR 0x0A # ?ind) @ ?f y) rest_kvs)
                @ (CHR 0x0A # ind @ CHR ''}'' # rest))))"
      using lex_whitespace[OF ws]
      by (simp add: Cons join_Cons lex_punctuation comp_def del: lex.simps)
    also have "\<dots> = emit TLBrace (emit_all (?g kv)
          (lex Start (concat (map (\<lambda>y. (CHR '','' # CHR 0x0A # ?ind) @ ?f y) rest_kvs)
                @ (CHR 0x0A # ind @ CHR ''}'' # rest))))"
      using each[of kv "concat (map (\<lambda>y. (CHR '','' # CHR 0x0A # ?ind) @ ?f y) rest_kvs)
                @ (CHR 0x0A # ind @ CHR ''}'' # rest)"]
        ends_value_separated[OF tl, of "CHR 0x0A # ?ind" ?f rest_kvs] Cons
      by (simp del: lex.simps)
    also have "\<dots> = emit TLBrace (emit_all (?g kv)
          (emit_all (concat (map (\<lambda>x. TComma # ?g x) rest_kvs))
             (lex Start (CHR 0x0A # ind @ CHR ''}'' # rest))))"
      using lex_separated[of rest_kvs ?f ?g "CHR 0x0A # ?ind", OF _ _ tl] each Cons ws
      by (simp add: is_whitespace_def del: lex.simps)
    also have "\<dots> = emit_all (toks (JObj kvs)) (lex Start rest)"
      by (simp add: Cons lex_closing[OF JObj.prems(2)] emit_all_simps(2,3,4) del: lex.simps)
    finally show ?thesis .
  qed
qed



subsection \<open>keys in enumeration order\<close>

lemma js_ordered_append_left: "js_ordered (xs @ ys) \<Longrightarrow> js_ordered xs"
  by (induction xs) (auto split: option.splits)

lemma js_ordered_before:
  "js_ordered (xs @ k # ys) \<Longrightarrow> x \<in> set xs \<Longrightarrow>
   x \<noteq> k \<and> (\<forall>n. array_index k = Some n \<longrightarrow> (\<exists>m. array_index x = Some m \<and> m < n))"
  by (induction xs) (auto split: option.splits simp: list_all_iff)

lemma insert_index_last:
  "\<forall>x \<in> set ps. \<exists>m. array_index (fst x) = Some m \<and> m < n \<Longrightarrow>
   insert_index n k v ps = ps @ [(k, v)]"
  by (induction ps) (auto split: option.splits)

lemma define_own_last:
  assumes "js_ordered (map fst ps @ [k])"
  shows "define_own ps k v = ps @ [(k, v)]"
proof -
  have fresh: "\<not> has_own ps k"
    using js_ordered_before[OF assms] by (auto simp: has_own_def map_of_eq_None_iff)
  show ?thesis
  proof (cases "array_index k")
    case None
    then show ?thesis using fresh by (simp add: define_own_def)
  next
    case (Some n)
    have "insert_index n k v ps = ps @ [(k, v)]"
      using js_ordered_before[OF assms] Some by (intro insert_index_last) auto
    then show ?thesis using fresh Some by (simp add: define_own_def)
  qed
qed

lemma foldl_define_own:
  "js_ordered (map fst (acc @ kvs)) \<Longrightarrow>
   foldl (\<lambda>ps kv. define_own ps (fst kv) (snd kv)) acc kvs = acc @ kvs"
proof (induction kvs arbitrary: acc)
  case Nil
  then show ?case by simp
next
  case (Cons kv kvs)
  have "js_ordered ((map fst acc @ [fst kv]) @ map fst kvs)"
    using Cons.prems by simp
  then have "js_ordered (map fst acc @ [fst kv])"
    by (rule js_ordered_append_left)
  then have "define_own acc (fst kv) (snd kv) = acc @ [kv]"
    by (simp add: define_own_last)
  then show ?case
    using Cons.IH[of "acc @ [kv]"] Cons.prems by simp
qed

lemma build_object_ordered: "js_ordered (map fst kvs) \<Longrightarrow> build_object kvs = kvs"
  using foldl_define_own[of "[]" kvs] by (simp add: build_object_def)

subsection \<open>parsing the tokens of a value\<close>

lemma toks_start: "\<exists>t ts. toks v = t # ts \<and> t \<noteq> TRBracket"
  by (cases v) (auto split: list.splits)

lemma toks_length: "1 \<le> length (toks v)"
  using toks_start[of v] by auto

lemma parse_array_step:
  shows "parse_value (Suc m) (TLBracket # toks v @ X) =
           (case parse_value m (toks v @ X) of
              None \<Rightarrow> None
            | Some (v', r') \<Rightarrow>
                (case parse_elements m r' of
                   None \<Rightarrow> None
                 | Some (vs, r'') \<Rightarrow> Some (JArr (v' # vs), r'')))"
proof -
  obtain t ts where t: "toks v = t # ts" "t \<noteq> TRBracket"
    using toks_start by blast
  show ?thesis
    using t(2) by (cases t) (simp_all add: t(1))
qed

lemma parse_elements_all:
  assumes each: "\<And>x n rest. x \<in> set vs \<Longrightarrow> length (toks x) \<le> n \<Longrightarrow>
                   parse_value n (toks x @ rest) = Some (x, rest)"
  shows "length (concat (map (\<lambda>x. TComma # toks x) vs)) + 1 \<le> n \<Longrightarrow>
         parse_elements n (concat (map (\<lambda>x. TComma # toks x) vs) @ TRBracket # rest) = Some (vs, rest)"
  using each
proof (induction vs arbitrary: n)
  case Nil
  then obtain m where "n = Suc m" by (cases n) auto
  then show ?case by simp
next
  case (Cons x xs)
  from Cons.prems(1) obtain m where n: "n = Suc m" by (cases n) auto
  have lx: "1 \<le> length (toks x)" by (rule toks_length)
  have 1: "parse_value m (toks x @ concat (map (\<lambda>x. TComma # toks x) xs) @ TRBracket # rest)
            = Some (x, concat (map (\<lambda>x. TComma # toks x) xs) @ TRBracket # rest)"
    using Cons.prems(1) n by (intro Cons.prems(2)) auto
  have 2: "parse_elements m (concat (map (\<lambda>x. TComma # toks x) xs) @ TRBracket # rest) = Some (xs, rest)"
    using Cons.prems n lx by (intro Cons.IH) auto
  show ?case
    by (simp add: n 1 2)
qed

lemma parse_members_all:
  assumes each: "\<And>x n rest. x \<in> set kvs \<Longrightarrow> length (toks (snd x)) \<le> n \<Longrightarrow>
                   parse_value n (toks (snd x) @ rest) = Some (snd x, rest)"
  shows "length (concat (map (\<lambda>x. TComma # TString (fst x) # TColon # toks (snd x)) kvs)) + 1 \<le> n \<Longrightarrow>
         parse_members n (concat (map (\<lambda>x. TComma # TString (fst x) # TColon # toks (snd x)) kvs)
                           @ TRBrace # rest) = Some (kvs, rest)"
  using each
proof (induction kvs arbitrary: n)
  case Nil
  then obtain m where "n = Suc m" by (cases n) auto
  then show ?case by simp
next
  case (Cons x xs)
  let ?rest = "concat (map (\<lambda>x. TComma # TString (fst x) # TColon # toks (snd x)) xs) @ TRBrace # rest"
  from Cons.prems(1) obtain m where n: "n = Suc m" by (cases n) auto
  have 1: "parse_value m (toks (snd x) @ ?rest) = Some (snd x, ?rest)"
    using Cons.prems(1) n by (intro Cons.prems(2)) auto
  have 2: "parse_members m ?rest = Some (xs, rest)"
    using Cons.prems n by (intro Cons.IH) auto
  show ?case
    by (simp add: n 1 2)
qed

lemma parse_toks:
  "exact v \<Longrightarrow> length (toks v) \<le> n \<Longrightarrow> parse_value n (toks v @ rest) = Some (v, rest)"
proof (induction v arbitrary: n rest)
  case JNull
  then obtain m where "n = Suc m" by (cases n) auto
  then show ?case by simp
next
  case (JBool b)
  then obtain m where "n = Suc m" by (cases n) auto
  then show ?case by simp
next
  case (JNum l)
  then obtain m where "n = Suc m" by (cases n) auto
  then show ?case by simp
next
  case (JStr s)
  then obtain m where "n = Suc m" by (cases n) auto
  then show ?case by simp
next
  case (JArr vs)
  from JArr.prems(2) obtain m where n: "n = Suc m" by (cases n) (auto split: list.splits)
  show ?case
  proof (cases vs)
    case Nil
    then show ?thesis by (simp add: n)
  next
    case (Cons v rest_vs)
    let ?rest = "concat (map (\<lambda>x. TComma # toks x) rest_vs) @ TRBracket # rest"
    have sv: "exact v" and srest: "\<And>x. x \<in> set rest_vs \<Longrightarrow> exact x"
      using JArr.prems(1) Cons by (auto simp: list_all_iff)
    have len: "length (toks v) + length (concat (map (\<lambda>x. TComma # toks x) rest_vs)) + 1 \<le> m"
      using JArr.prems(2) n Cons by simp
    have 1: "parse_value m (toks v @ ?rest) = Some (v, ?rest)"
      using len sv Cons by (intro JArr.IH) auto
    have 2: "parse_elements m ?rest = Some (rest_vs, rest)"
    proof (rule parse_elements_all)
      fix x n' r assume "x \<in> set rest_vs" "length (toks x) \<le> n'"
      then show "parse_value n' (toks x @ r) = Some (x, r)"
        using srest Cons by (intro JArr.IH) auto
    qed (use len in auto)
    have "parse_value n (toks (JArr vs) @ rest) = parse_value (Suc m) (TLBracket # toks v @ ?rest)"
      by (simp add: n Cons)
    also have "\<dots> = Some (JArr (v # rest_vs), rest)"
      by (simp add: parse_array_step 1 2 del: parse_value.simps)
    finally show ?thesis by (simp add: Cons)
  qed
next
  case (JObj kvs)
  from JObj.prems(2) obtain m where n: "n = Suc m" by (cases n) (auto split: list.splits)
  show ?case
  proof (cases kvs)
    case Nil
    then show ?thesis by (simp add: n)
  next
    case (Cons kv rest_kvs)
    let ?rest = "concat (map (\<lambda>x. TComma # TString (fst x) # TColon # toks (snd x)) rest_kvs)
                   @ TRBrace # rest"
    have IH: "parse_value n' (toks (snd x) @ r) = Some (snd x, r)"
      if "x \<in> set kvs" "length (toks (snd x)) \<le> n'" for x n' r
    proof -
      have "exact (snd x)" using JObj.prems(1) that(1) by (auto simp: list_all_iff)
      moreover have "snd x \<in> Basic_BNFs.snds x" by (cases x) simp
      ultimately show ?thesis using JObj.IH[OF that(1)] that(2) by blast
    qed
    have len: "length (toks (snd kv))
                 + length (concat (map (\<lambda>x. TComma # TString (fst x) # TColon # toks (snd x)) rest_kvs))
                 + 3 \<le> m"
      using JObj.prems(2) n Cons by simp
    have 1: "parse_value m (toks (snd kv) @ ?rest) = Some (snd kv, ?rest)"
      using len Cons by (intro IH) auto
    have 2: "parse_members m ?rest = Some (rest_kvs, rest)"
    proof (rule parse_members_all)
      fix x n' r assume "x \<in> set rest_kvs" "length (toks (snd x)) \<le> n'"
      then show "parse_value n' (toks (snd x) @ r) = Some (snd x, r)"
        using Cons by (intro IH) auto
    qed (use len in auto)
    have b: "build_object (kv # rest_kvs) = kv # rest_kvs"
      using JObj.prems(1) Cons build_object_ordered[of kvs] by simp
    show ?thesis
      by (simp add: n Cons 1 2 b)
  qed
qed

theorem parse_stringify:
  assumes "exact v"
  shows "JSON_parse (JSON_stringify v) = Parsed v"
proof -
  have "lex Start (serialize [] v) = Some (toks v, False)"
    using lex_serialize[OF assms, of "[]" "[]"] by (simp add: emit_all_def ends_value_def)
  moreover have "parse_value (Suc (length (toks v))) (toks v) = Some (v, [])"
    using parse_toks[OF assms, of "Suc (length (toks v))" "[]"] by simp
  ultimately show ?thesis
    by (simp add: JSON_parse_def JSON_stringify_def)
qed



subsection \<open>array indices\<close>

lemma numeral_val_snoc: "numeral_val (xs @ [c]) = 10 * numeral_val xs + digit_val c"
  by (simp add: numeral_val_def)

lemma digit_val_inj: "is_digit c \<Longrightarrow> is_digit d \<Longrightarrow> digit_val c = digit_val d \<Longrightarrow> c = d"
proof -
  assume a: "is_digit c" "is_digit d" "digit_val c = digit_val d"
  then have "(of_char c :: nat) = of_char d"
    unfolding is_digit_def digit_val_def by arith
  then show ?thesis by simp
qed

lemma digit_val_less: "is_digit c \<Longrightarrow> digit_val c < 10"
  by (auto simp: is_digit_def digit_val_def)

lemma digit_val_zero: "is_digit c \<Longrightarrow> digit_val c = 0 \<Longrightarrow> c = CHR ''0''"
proof -
  assume a: "is_digit c" "digit_val c = 0"
  have "is_digit (CHR ''0'')" "digit_val (CHR ''0'') = 0"
    by (simp_all add: is_digit_def digit_val_def)
  with a show ?thesis by (intro digit_val_inj) auto
qed

lemma numeral_val_pos:
  "xs \<noteq> [] \<Longrightarrow> list_all is_digit xs \<Longrightarrow> hd xs \<noteq> CHR ''0'' \<Longrightarrow> 0 < numeral_val xs"
proof (induction xs rule: rev_induct)
  case Nil
  then show ?case by simp
next
  case (snoc c xs)
  show ?case
  proof (cases "xs = []")
    case True
    then show ?thesis
      using snoc.prems digit_val_zero[of c] by (auto simp: numeral_val_def)
  next
    case False
    then have "0 < numeral_val xs" using snoc by simp
    then show ?thesis by (simp add: numeral_val_snoc)
  qed
qed

lemma numeral_val_inj:
  "list_all is_digit xs \<Longrightarrow> list_all is_digit ys \<Longrightarrow>
   (xs = [] \<or> hd xs \<noteq> CHR ''0'') \<Longrightarrow> (ys = [] \<or> hd ys \<noteq> CHR ''0'') \<Longrightarrow>
   numeral_val xs = numeral_val ys \<Longrightarrow> xs = ys"
proof (induction xs arbitrary: ys rule: rev_induct)
  case Nil
  show ?case
  proof (rule ccontr)
    assume "[] \<noteq> ys"
    then have "0 < numeral_val ys" using Nil by (intro numeral_val_pos) auto
    then show False using Nil.prems(5) by (simp add: numeral_val_def)
  qed
next
  case (snoc c xs)
  have pos: "0 < numeral_val (xs @ [c])"
    using snoc.prems by (intro numeral_val_pos) auto
  show ?case
  proof (cases ys rule: rev_cases)
    case Nil
    then show ?thesis using pos snoc.prems(5) by (simp add: numeral_val_def)
  next
    case (snoc ys' d)
    have dc: "is_digit c" "is_digit d" using snoc.prems(1,2) snoc by auto
    have eq: "10 * numeral_val xs + digit_val c = 10 * numeral_val ys' + digit_val d"
      using snoc.prems(5) snoc by (simp add: numeral_val_snoc)
    have "digit_val c = digit_val d" "numeral_val xs = numeral_val ys'"
      using eq digit_val_less[OF dc(1)] digit_val_less[OF dc(2)] by presburger+
    moreover have "xs = [] \<or> hd xs \<noteq> CHR ''0''" "ys' = [] \<or> hd ys' \<noteq> CHR ''0''"
      using snoc.prems(3,4) snoc by (auto simp: hd_append split: if_splits)
    ultimately show ?thesis
      using snoc.IH[of ys'] snoc.prems(1,2) snoc digit_val_inj[OF dc] by auto
  qed
qed

lemma array_index_inj:
  assumes "array_index k = Some n" "array_index k' = Some n"
  shows "k = k'"
proof -
  have canon: "k' = ''0''" if a: "array_index k' = Some m" "hd k' = CHR ''0''" for k' m
    using a by (cases k') (auto simp: array_index_def split: if_splits)
  have k: "k \<noteq> []" "list_all is_digit k" "numeral_val k = n"
    and k': "k' \<noteq> []" "list_all is_digit k'" "numeral_val k' = n"
    using assms by (auto simp: array_index_def split: if_splits)
  show ?thesis
  proof (cases "hd k = CHR ''0'' \<or> hd k' = CHR ''0''")
    case False
    then show ?thesis using k k' by (intro numeral_val_inj) auto
  next
    case True
    then have z: "k = ''0'' \<or> k' = ''0''" using canon assms by blast
    then have "n = 0" using k(3) k'(3) by (auto simp: numeral_val_def digit_val_def)
    have "hd x = CHR ''0''" if "x \<noteq> []" "list_all is_digit x" "numeral_val x = 0" for x
      using numeral_val_pos[of x] that by auto
    then have "hd k = CHR ''0''" "hd k' = CHR ''0''"
      using k k' \<open>n = 0\<close> by auto
    then show ?thesis using canon assms by blast
  qed
qed

subsection \<open>writing a property keeps the enumeration order\<close>

lemma map_fst_replace_own: "map fst (replace_own ps k v) = map fst ps"
  by (induction ps) auto

lemma js_ordered_snoc:
  "js_ordered ks \<Longrightarrow> k \<notin> set ks \<Longrightarrow> array_index k = None \<Longrightarrow> js_ordered (ks @ [k])"
  by (induction ks) (auto split: option.splits)

lemma set_insert_index: "set (map fst (insert_index n k v ps)) = insert k (set (map fst ps))"
proof (induction ps)
  case Nil
  then show ?case by simp
next
  case (Cons p ps)
  obtain k' v' where p: "p = (k', v')" by (cases p)
  show ?case
    using Cons.IH by (cases "array_index k'") (auto simp: p)
qed

lemma js_ordered_insert_index:
  "js_ordered (map fst ps) \<Longrightarrow> k \<notin> set (map fst ps) \<Longrightarrow> array_index k = Some n \<Longrightarrow>
   js_ordered (map fst (insert_index n k v ps))"
proof (induction ps)
  case Nil
  then show ?case by simp
next
  case (Cons p ps)
  obtain k' v' where p: "p = (k', v')" by (cases p)
  show ?case
  proof (cases "array_index k'")
    case None
    then show ?thesis
      using Cons.prems p by (auto simp: list_all_iff)
  next
    case (Some m)
    show ?thesis
    proof (cases "m < n")
      case True
      have "k' \<notin> set (map fst (insert_index n k v ps))"
        using Cons.prems p by (auto simp: set_insert_index simp del: set_map)
      moreover have "js_ordered (map fst (insert_index n k v ps))"
        using Cons p by auto
      moreover have "list_all (\<lambda>k''. case array_index k'' of Some m' \<Rightarrow> m < m' | None \<Rightarrow> True)
                       (map fst (insert_index n k v ps))"
        using Cons.prems p Some True
        by (auto simp: list_all_iff set_insert_index simp del: set_map)
      ultimately show ?thesis
        using p Some True by simp
    next
      case False
      have "m \<noteq> n"
        using array_index_inj[of k' m k] Some Cons.prems p by auto
      then have "n < m" using False by simp
      then show ?thesis
        using Cons.prems p Some False
        by (auto simp: list_all_iff split: option.splits)
    qed
  qed
qed

lemma js_ordered_define_own:
  assumes "js_ordered (map fst ps)"
  shows "js_ordered (map fst (define_own ps k v))"
proof (cases "has_own ps k")
  case True
  then show ?thesis using assms by (simp add: define_own_def map_fst_replace_own)
next
  case False
  then have fresh: "k \<notin> set (map fst ps)"
    by (simp add: has_own_def map_of_eq_None_iff)
  show ?thesis
  proof (cases "array_index k")
    case None
    then show ?thesis
      using False js_ordered_snoc[OF assms fresh None] by (simp add: define_own_def)
  next
    case (Some n)
    then show ?thesis
      using False js_ordered_insert_index[OF assms fresh Some] by (simp add: define_own_def)
  qed
qed



subsection \<open>what the parser builds\<close>

lemma foldl_define_own_ordered:
  "js_ordered (map fst acc) \<Longrightarrow>
   js_ordered (map fst (foldl (\<lambda>ps kv. define_own ps (fst kv) (snd kv)) acc kvs))"
  by (induction kvs arbitrary: acc) (simp_all add: js_ordered_define_own)


lemma replace_own_values:
  "p \<in> set (replace_own ps k v) \<Longrightarrow> snd p = v \<or> snd p \<in> snd ` set ps"
  by (induction ps) (auto split: if_splits)

lemma insert_index_values:
  "p \<in> set (insert_index n k v ps) \<Longrightarrow> snd p = v \<or> snd p \<in> snd ` set ps"
proof (induction ps)
  case Nil
  then show ?case by simp
next
  case (Cons q ps)
  obtain k' v' where q: "q = (k', v')" by (cases q)
  show ?case
    using Cons by (cases "array_index k'") (auto simp: q split: if_splits)
qed

lemma define_own_values:
  "p \<in> set (define_own ps k v) \<Longrightarrow> snd p = v \<or> snd p \<in> snd ` set ps"
  using replace_own_values[of p ps k v] insert_index_values[of p _ k v ps]
  by (auto simp: define_own_def split: option.splits if_splits)

lemma foldl_define_own_values:
  "p \<in> set (foldl (\<lambda>ps kv. define_own ps (fst kv) (snd kv)) acc kvs) \<Longrightarrow>
   snd p \<in> snd ` set acc \<or> snd p \<in> snd ` set kvs"
proof (induction kvs arbitrary: acc)
  case Nil
  then show ?case by simp
next
  case (Cons kv kvs)
  from Cons.IH[OF Cons.prems[simplified]]
  have "snd p \<in> snd ` set (define_own acc (fst kv) (snd kv)) \<or> snd p \<in> snd ` set kvs" .
  then show ?case
  proof
    assume "snd p \<in> snd ` set (define_own acc (fst kv) (snd kv))"
    then obtain q where "q \<in> set (define_own acc (fst kv) (snd kv))" "snd q = snd p" by auto
    then show ?thesis using define_own_values[of q acc "fst kv" "snd kv"] by auto
  next
    assume "snd p \<in> snd ` set kvs"
    then show ?thesis by auto
  qed
qed













subsection \<open>the graph as JSON\<close>

lemma fixed_keys_ordered:
  "js_ordered [''name'', ''entityType'', ''observations'', ''createdAt'']"
  "js_ordered [''entities'', ''relations'', ''observations'']"
  by (simp_all add: array_index_def is_digit_def)

lemma exact_entity: "exact (json_of_entity e)"
  by (simp add: json_of_entity_def fixed_keys_ordered list_all_iff del: js_ordered.simps)

lemma exact_graph:
  "js_ordered (Object_keys (entities g)) \<Longrightarrow> list_all (\<lambda>r. exact (JObj r)) (relations g) \<Longrightarrow>
   exact (json_of_graph g)"
  by (simp add: json_of_graph_def json_of_relation_def fixed_keys_ordered list_all_iff exact_entity
      Object_keys_def comp_def del: js_ordered.simps(2))

lemma exact_new_relation:
  assumes "list_all (\<lambda>kv. exact (snd kv)) r"
  shows "exact (JObj (new_relation r t))"
proof -
  have o: "js_ordered (map fst (new_relation r t))"
    by (simp add: new_relation_def spread_def js_ordered_define_own foldl_define_own_ordered)
  have "exact (snd p)" if p: "p \<in> set (new_relation r t)" for p
  proof -
    have "snd p = JStr t \<or> snd p \<in> snd ` set (spread [] r)"
      using define_own_values[of p "spread [] r" "''createdAt''" "JStr t"] p
      by (simp add: new_relation_def)
    then show ?thesis
    proof
      assume "snd p = JStr t"
      then show ?thesis by simp
    next
      assume "snd p \<in> snd ` set (spread [] r)"
      then obtain q where q: "q \<in> set (spread [] r)" "snd q = snd p" by auto
      then have "snd q \<in> snd ` set r"
        using foldl_define_own_values[of q "[]" r] by (simp add: spread_def)
      then show ?thesis using assms q(2) by (auto simp: list_all_iff)
    qed
  qed
  then show ?thesis using o by (simp add: list_all_iff)
qed

lemma read_json_of_entity: "read_entity (json_of_entity e) = e"
  by (simp add: read_entity_def json_of_entity_def field_def text_of_def elements_def comp_def)

lemma read_json_of_relation: "read_relation (json_of_relation r) = r"
  by (simp add: read_relation_def json_of_relation_def members_def)

lemma read_json_of_graph:
  "read_graph (json_of_graph g) = g\<lparr>entities := (entities g)\<lparr>proto := None\<rparr>\<rparr>"
proof -
  obtain ents rels ro where g: "g = \<lparr>entities = ents, relations = rels, root_observations = ro\<rparr>"
    by (cases g) auto
  obtain ow pr where e: "ents = \<lparr>own = ow, proto = pr\<rparr>"
    by (cases ents) auto
  have ro: "ro = EmptyObject" by (cases ro) simp
  show ?thesis
    by (simp add: g e ro read_graph_def json_of_graph_def field_def members_def elements_def
        comp_def read_json_of_entity read_json_of_relation)
qed

lemma json_of_graph_proto:
  "json_of_graph (g\<lparr>entities := (entities g)\<lparr>proto := p\<rparr>\<rparr>) = json_of_graph g"
  by (simp add: json_of_graph_def)

lemma relations_of_json_of_graph:
  "elements (field (json_of_graph g) ''relations'') = map JObj (relations g)"
  by (simp add: json_of_graph_def json_of_relation_def field_def elements_def)

lemma graph_of_json_of_graph:
  "list_all (\<lambda>r. exact (JObj r)) (relations g) \<Longrightarrow>
   graph_of_json (json_of_graph g) = Some (g\<lparr>entities := (entities g)\<lparr>proto := None\<rparr>\<rparr>)"
  by (simp add: graph_of_json_def read_json_of_graph json_of_graph_proto
      relations_of_json_of_graph list_all_iff)

lemma graph_of_json_exact:
  "graph_of_json v = Some g \<Longrightarrow>
   json_of_graph g = v \<and> proto (entities g) = None \<and> list_all (\<lambda>r. exact (JObj r)) (relations g)"
proof -
  assume a: "graph_of_json v = Some g"
  then have g: "g = read_graph v" and j: "json_of_graph (read_graph v) = v"
    and e: "list_all exact (elements (field v ''relations''))"
    by (auto simp: graph_of_json_def split: if_splits)
  have "proto (entities (read_graph v)) = None"
    by (simp add: read_graph_def)
  moreover have "list_all (\<lambda>r. exact (JObj r)) (relations g)"
    using e relations_of_json_of_graph[of g] g j by (simp add: list_all_iff)
  ultimately show ?thesis using g j by simp
qed


subsection \<open>loading\<close>

lemma readFile_eq:
  "readFile w =
     (case io w (io_count w) of
        IoError left \<Rightarrow> (Inl SystemError, w\<lparr>io_count := Suc (io_count w)\<rparr>)
      | IoOk \<Rightarrow>
          (case disk w of
             None \<Rightarrow> (Inl SystemError, w\<lparr>io_count := Suc (io_count w)\<rparr>)
           | Some text \<Rightarrow> (Inr text, w\<lparr>io_count := Suc (io_count w)\<rparr>)))"
  by (simp add: readFile_def Let_def)

lemma loadMemory_failure:
  assumes "io w (io_count w) \<noteq> IoOk \<or> disk w = None
           \<or> (\<exists>text. disk w = Some text \<and> JSON_parse text = Invalid)"
  shows "loadMemory w = Loaded (saveMemory (w\<lparr>io_count := Suc (io_count w)\<rparr>))"
  using assms
  by (auto simp: loadMemory_def readFile_eq split: io_outcome.splits option.splits)

lemma loadMemory_parsed:
  assumes "io w (io_count w) = IoOk" "disk w = Some text" "JSON_parse text = Parsed v"
  shows "loadMemory w =
           (case graph_of_json v of
              None \<Rightarrow> Untyped v (w\<lparr>io_count := Suc (io_count w)\<rparr>)
            | Some g \<Rightarrow> Loaded (Inr (), w\<lparr>io_count := Suc (io_count w), memory := g\<rparr>))"
  using assms by (simp add: loadMemory_def readFile_eq)



subsection \<open>key order is an invariant\<close>

lemma set_property_ordered:
  "js_ordered (Object_keys obj) \<Longrightarrow> js_ordered (Object_keys (set_property obj k e))"
  by (simp add: Object_keys_def set_property_def js_ordered_define_own)

lemma createEntities_loop_ordered:
  "js_ordered (Object_keys (entities (memory w))) \<Longrightarrow>
   js_ordered (Object_keys (entities (memory (snd (createEntities_loop es w)))))"
proof (induction es arbitrary: w)
  case Nil
  then show ?case by (simp add: return_def)
next
  case (Cons e es)
  show ?case
    using Cons.prems
    by (auto simp: loop_Cons set_property_ordered simp del: createEntities_loop.simps
        intro!: Cons.IH)
qed

lemma push_observations_keys:
  "Object_keys (entities (memory (snd (push_observations obs w)))) = Object_keys (entities (memory w))"
  by (simp add: push_observations_def Let_def Object_keys_def map_fst_replace_own
      split: looked_up.splits)

lemma addObservations_loop_keys:
  "Object_keys (entities (memory (snd (addObservations_loop os w)))) = Object_keys (entities (memory w))"
proof (induction os arbitrary: w)
  case Nil
  then show ?case by (simp add: return_def)
next
  case (Cons obs rest)
  show ?case
    using push_observations_keys[of obs w] Cons.IH[of "snd (push_observations obs w)"]
    by (cases "push_observations obs w")
       (auto simp: addObservations_loop_Cons simp del: addObservations_loop.simps split: sum.splits)
qed

lemma tool_switch_ordered:
  assumes "js_ordered (Object_keys (entities (memory w)))"
  shows "js_ordered (Object_keys (entities (memory (snd (tool_switch req w)))))"
proof -
  have ce: "js_ordered (Object_keys (entities (memory (snd (createEntities arg w)))))" for arg
  proof (cases arg)
    case None
    then show ?thesis using assms by (simp add: createEntities_def throw_def)
  next
    case (Some es)
    then show ?thesis
      using createEntities_loop_ordered[OF assms, of es] by (simp add: memory_createEntities)
  qed
  have cr: "js_ordered (Object_keys (entities (memory (snd (createRelations arg w)))))" for arg
  proof (cases arg)
    case None
    then show ?thesis using assms by (simp add: createRelations_def throw_def)
  next
    case (Some rs)
    then show ?thesis
      using assms createRelations_loop_frame[of rs w] by (simp add: createRelations_eq saveMemory_eq)
  qed
  have ao: "js_ordered (Object_keys (entities (memory (snd (addObservations arg w)))))" for arg
  proof (cases arg)
    case None
    then show ?thesis using assms by (simp add: addObservations_def throw_def)
  next
    case (Some os)
    show ?thesis
      using assms addObservations_loop_keys[of os w]
      by (cases "addObservations_loop os w")
         (auto simp: Some addObservations_eq saveMemory_eq split: sum.splits)
  qed
  have sn: "snd (searchNodes arg w) = w" for arg
    by (rule searches_keep_world)
  show ?thesis
    using assms ce cr ao sn
    by (cases "arguments req")
       (simp_all add: tool_switch_def with_arguments_def throw_def readGraph_def)
qed

lemma callTool_ordered:
  "js_ordered (Object_keys (entities (memory w))) \<Longrightarrow>
   js_ordered (Object_keys (entities (memory (snd (callTool wording req w)))))"
  using tool_switch_ordered[of w req] by (simp add: callTool_def snd_try_catch_return)

lemma handleRequest_ordered:
  assumes "js_ordered (Object_keys (entities (memory w)))"
  shows "js_ordered (Object_keys (entities (memory (snd (handleRequest wording rpc w)))))"
proof -
  have ce: "js_ordered (Object_keys (entities (memory (snd (Simple_createEntities arg w)))))" for arg
  proof (cases arg)
    case None
    then show ?thesis using assms by (simp add: Simple_createEntities_def throw_def)
  next
    case (Some es)
    then show ?thesis
      using createEntities_loop_ordered[OF assms, of es]
      by (simp add: Simple_createEntities_eq saveMemory_eq)
  qed
  have sn: "snd (Simple_searchNodes arg w) = w" for arg
    by (rule searches_keep_world)
  have tc: "js_ordered (Object_keys (entities (memory (snd (handleToolCall ps w)))))" for ps
  proof (cases ps)
    case None
    then show ?thesis using assms by (simp add: handleToolCall_def throw_def)
  next
    case (Some req)
    then show ?thesis
      using assms ce sn
      by (cases "arguments req")
         (simp_all add: handleToolCall_def with_arguments_def throw_def Simple_readGraph_def)
  qed
  have "snd (handleRequest wording rpc w) =
          (if rpc_method rpc = ''tools/call'' then snd (handleToolCall (rpc_params rpc) w) else w)"
    by (simp add: handleRequest_def snd_try_catch_return' return_def throw_def)
  then show ?thesis using assms tc by simp
qed



subsection \<open>relations stay exact\<close>

lemma createRelations_loop_exact:
  "list_all (\<lambda>r. exact (JObj r)) (relations (memory w)) \<Longrightarrow>
   list_all (\<lambda>r. list_all (\<lambda>kv. exact (snd kv)) r) rs \<Longrightarrow>
   list_all (\<lambda>r. exact (JObj r)) (relations (memory (snd (createRelations_loop rs w))))"
proof (induction rs arbitrary: w)
  case Nil
  then show ?case by (simp add: return_def)
next
  case (Cons r rs)
  have "exact (JObj (new_relation r (clock w (ticks w))))"
    using Cons.prems(2) by (intro exact_new_relation) simp
  then show ?case
    using Cons.prems
    by (simp add: createRelations_loop_Cons Cons.IH del: createRelations_loop.simps exact.simps)
qed

lemma tool_switch_exact:
  assumes "list_all (\<lambda>r. exact (JObj r)) (relations (memory w))"
    and "\<And>args rs. arguments req = Some args \<Longrightarrow> arg_relations args = Some rs \<Longrightarrow>
           list_all (\<lambda>r. list_all (\<lambda>kv. exact (snd kv)) r) rs"
  shows "list_all (\<lambda>r. exact (JObj r)) (relations (memory (snd (tool_switch req w))))"
proof -
  have ce: "relations (memory (snd (createEntities arg w))) = relations (memory w)" for arg
  proof (cases arg)
    case None
    then show ?thesis by (simp add: createEntities_def throw_def)
  next
    case (Some es)
    then show ?thesis
      using loop_frame[of es w] by (simp add: memory_createEntities)
  qed
  have ao: "relations (memory (snd (addObservations arg w))) = relations (memory w)" for arg
  proof (cases arg)
    case None
    then show ?thesis by (simp add: addObservations_def throw_def)
  next
    case (Some os)
    show ?thesis
      using addObservations_loop_frame[of os w]
      by (cases "addObservations_loop os w")
         (auto simp: Some addObservations_eq saveMemory_eq split: sum.splits)
  qed
  have sn: "snd (searchNodes arg w) = w" for arg
    by (rule searches_keep_world)
  show ?thesis
  proof (cases "arguments req")
    case None
    then show ?thesis
      using assms(1) by (simp add: tool_switch_def with_arguments_def throw_def readGraph_def)
  next
    case (Some args)
    have cr: "list_all (\<lambda>r. exact (JObj r))
                (relations (memory (snd (createRelations (arg_relations args) w))))"
    proof (cases "arg_relations args")
      case None
      then show ?thesis using assms(1) by (simp add: createRelations_def throw_def)
    next
      case (Some rs)
      then show ?thesis
        using createRelations_loop_exact[OF assms(1) assms(2)[OF \<open>arguments req = Some args\<close> Some]]
        by (simp add: createRelations_eq saveMemory_eq)
    qed
    show ?thesis
      using assms(1) ce ao sn cr Some
      by (simp add: tool_switch_def with_arguments_def throw_def readGraph_def)
  qed
qed

lemma callTool_exact:
  assumes "list_all (\<lambda>r. exact (JObj r)) (relations (memory w))"
    and "\<And>args rs. arguments req = Some args \<Longrightarrow> arg_relations args = Some rs \<Longrightarrow>
           list_all (\<lambda>r. list_all (\<lambda>kv. exact (snd kv)) r) rs"
  shows "list_all (\<lambda>r. exact (JObj r)) (relations (memory (snd (callTool wording req w))))"
  using tool_switch_exact[OF assms] by (simp add: callTool_def snd_try_catch_return)

lemma handleRequest_relations:
  "relations (memory (snd (handleRequest wording rpc w))) = relations (memory w)"
proof -
  have ce: "relations (memory (snd (Simple_createEntities arg w))) = relations (memory w)" for arg
  proof (cases arg)
    case None
    then show ?thesis by (simp add: Simple_createEntities_def throw_def)
  next
    case (Some es)
    then show ?thesis
      using loop_frame[of es w] by (simp add: Simple_createEntities_eq saveMemory_eq)
  qed
  have sn: "snd (Simple_searchNodes arg w) = w" for arg
    by (rule searches_keep_world)
  have tc: "relations (memory (snd (handleToolCall ps w))) = relations (memory w)" for ps
  proof (cases ps)
    case None
    then show ?thesis by (simp add: handleToolCall_def throw_def)
  next
    case (Some req)
    then show ?thesis
      using ce sn
      by (cases "arguments req")
         (simp_all add: handleToolCall_def with_arguments_def throw_def Simple_readGraph_def)
  qed
  have "snd (handleRequest wording rpc w) =
          (if rpc_method rpc = ''tools/call'' then snd (handleToolCall (rpc_params rpc) w) else w)"
    by (simp add: handleRequest_def snd_try_catch_return' return_def throw_def)
  then show ?thesis using tc by simp
qed



subsection \<open>round trip\<close>

lemma stringify_graph_parses:
  "js_ordered (Object_keys (entities g)) \<Longrightarrow> list_all (\<lambda>r. exact (JObj r)) (relations g) \<Longrightarrow>
   JSON_parse (JSON_stringify (json_of_graph g)) = Parsed (json_of_graph g)"
  by (intro parse_stringify exact_graph)





lemma graph_A_ordered: "js_ordered (Object_keys (entities graph_A))"
  by (simp add: graph_A_def Object_keys_def array_index_def is_digit_def)

lemma graph_A_exact: "list_all (\<lambda>r. exact (JObj r)) (relations graph_A)"
  by (simp add: graph_A_def)

lemma graph_A_proto: "graph_A\<lparr>entities := (entities graph_A)\<lparr>proto := None\<rparr>\<rparr> = graph_A"
  by (simp add: graph_A_def)







subsection \<open>an installed prototype is not written\<close>


lemma empty_graph_text:
  "JSON_stringify (json_of_graph empty_graph) =
     ''{\<newline>  \"entities\": {},\<newline>  \"relations\": [],\<newline>  \"observations\": {}\<newline>}''"
  by (simp add: JSON_stringify_def json_of_graph_def empty_graph_def quote_string_def
      escape_unit_def gap_def)




text \<open>
  Claim C7, as amended. When \<open>loadMemory\<close> fails (the read fails, the file is missing, or
  its text is not JSON) it returns normally, the graph in memory stays as it was, which is
  the empty graph when the constructor calls it, and a save is attempted at once: if the
  write succeeds the file holds that graph, if it fails the file is as the failed write
  left it. When the text is JSON, the value it denotes becomes \<open>this.memory\<close> as it is,
  whatever its shape.
\<close>

theorem load_failure_falls_back:
  "((io w (io_count w) \<noteq> IoOk \<or> disk w = None
       \<or> (\<exists>text. disk w = Some text \<and> JSON_parse text = Invalid)) \<longrightarrow>
      (\<exists>w'. loadMemory w = Loaded (Inr (), w') \<and> memory w' = memory w
          \<and> disk w' = (case io w (Suc (io_count w)) of
                         IoOk \<Rightarrow> Some (JSON_stringify (json_of_graph (memory w)))
                       | IoError left \<Rightarrow> left)))
   \<and> ((outcomes 0 \<noteq> IoOk \<or> file = None
       \<or> (\<exists>text. file = Some text \<and> JSON_parse text = Invalid)) \<longrightarrow>
      (\<exists>w'. constructor file outcomes readings = Loaded (Inr (), w') \<and> memory w' = empty_graph
          \<and> disk w' = (case outcomes 1 of
                         IoOk \<Rightarrow> Some ''{\<newline>  \"entities\": {},\<newline>  \"relations\": [],\<newline>  \"observations\": {}\<newline>}''
                       | IoError left \<Rightarrow> left)))
   \<and> (io w (io_count w) = IoOk \<and> disk w = Some text \<and> JSON_parse text = Parsed v \<longrightarrow>
        (case graph_of_json v of
           Some g \<Rightarrow> loadMemory w = Loaded (Inr (), w\<lparr>io_count := Suc (io_count w), memory := g\<rparr>)
                      \<and> json_of_graph g = v
         | None \<Rightarrow> loadMemory w = Untyped v (w\<lparr>io_count := Suc (io_count w)\<rparr>)))"
proof -
  have a: "\<exists>w'. loadMemory w = Loaded (Inr (), w') \<and> memory w' = memory w
          \<and> disk w' = (case io w (Suc (io_count w)) of
                         IoOk \<Rightarrow> Some (JSON_stringify (json_of_graph (memory w)))
                       | IoError left \<Rightarrow> left)"
    if "io w (io_count w) \<noteq> IoOk \<or> disk w = None
       \<or> (\<exists>text. disk w = Some text \<and> JSON_parse text = Invalid)" for w
    using loadMemory_failure[OF that] by (auto simp: saveMemory_eq split: io_outcome.splits)
  have b: "\<exists>w'. constructor file outcomes readings = Loaded (Inr (), w') \<and> memory w' = empty_graph
          \<and> disk w' = (case outcomes 1 of
                         IoOk \<Rightarrow> Some ''{\<newline>  \"entities\": {},\<newline>  \"relations\": [],\<newline>  \"observations\": {}\<newline>}''
                       | IoError left \<Rightarrow> left)"
    if h: "outcomes 0 \<noteq> IoOk \<or> file = None
       \<or> (\<exists>text. file = Some text \<and> JSON_parse text = Invalid)"
  proof -
    let ?w = "new_world file outcomes readings"
    have "io ?w (io_count ?w) \<noteq> IoOk \<or> disk ?w = None
       \<or> (\<exists>text. disk ?w = Some text \<and> JSON_parse text = Invalid)"
      using h by (simp add: new_world_def)
    from a[OF this] obtain w' where w': "loadMemory ?w = Loaded (Inr (), w')"
      "memory w' = memory ?w"
      "disk w' = (case io ?w (Suc (io_count ?w)) of
                         IoOk \<Rightarrow> Some (JSON_stringify (json_of_graph (memory ?w)))
                       | IoError left \<Rightarrow> left)"
      by blast
    have m: "memory ?w = empty_graph" "io ?w (Suc (io_count ?w)) = outcomes 1"
      by (simp_all add: new_world_def)
    have "memory w' = empty_graph" using w'(2) m by simp
    moreover have "disk w' = (case outcomes 1 of
                         IoOk \<Rightarrow> Some ''{\<newline>  \"entities\": {},\<newline>  \"relations\": [],\<newline>  \"observations\": {}\<newline>}''
                       | IoError left \<Rightarrow> left)"
      unfolding w'(3) m empty_graph_text by (rule refl)
    ultimately show ?thesis
      using w'(1) unfolding constructor_def by blast
  qed
  have c: "(case graph_of_json v of
           Some g \<Rightarrow> loadMemory w = Loaded (Inr (), w\<lparr>io_count := Suc (io_count w), memory := g\<rparr>)
                      \<and> json_of_graph g = v
         | None \<Rightarrow> loadMemory w = Untyped v (w\<lparr>io_count := Suc (io_count w)\<rparr>))"
    if h: "io w (io_count w) = IoOk" "disk w = Some text" "JSON_parse text = Parsed v"
    using loadMemory_parsed[OF h] graph_of_json_exact[of v]
    by (cases "graph_of_json v") simp_all
  show ?thesis using a[of w] b c by blast
qed


lemma not_json: "JSON_parse ''not json'' = Invalid"
  by (simp add: JSON_parse_def start_char_def is_whitespace_def is_digit_def)

theorem load_failure_falls_back_witness:
  "(\<exists>w'. constructor None always_ok example_clock = Loaded (Inr (), w')
        \<and> memory w' = empty_graph
        \<and> disk w' = Some ''{\<newline>  \"entities\": {},\<newline>  \"relations\": [],\<newline>  \"observations\": {}\<newline>}'')
   \<and> JSON_parse ''not json'' = Invalid
   \<and> (\<exists>w'. constructor (Some ''not json'') always_ok example_clock = Loaded (Inr (), w')
        \<and> memory w' = empty_graph
        \<and> disk w' = Some ''{\<newline>  \"entities\": {},\<newline>  \"relations\": [],\<newline>  \"observations\": {}\<newline>}'')
   \<and> io (stored_world snapshot_A) (io_count (stored_world snapshot_A)) = IoOk
   \<and> disk (stored_world snapshot_A) = Some snapshot_A
   \<and> JSON_parse snapshot_A = Parsed (json_of_graph graph_A)
   \<and> loadMemory (stored_world snapshot_A) =
       Loaded (Inr (), (stored_world snapshot_A)\<lparr>io_count := Suc (io_count (stored_world snapshot_A)),
                                                 memory := graph_A\<rparr>)"
proof -
  note t1 = load_failure_falls_back[of "stored_world snapshot_A" always_ok None example_clock
      snapshot_A "json_of_graph graph_A"]
  note t2 = load_failure_falls_back[of "stored_world snapshot_A" always_ok "Some ''not json''"
      example_clock snapshot_A "json_of_graph graph_A"]
  have 2: "io (stored_world snapshot_A) (io_count (stored_world snapshot_A)) = IoOk"
    "disk (stored_world snapshot_A) = Some snapshot_A"
    by (simp_all add: stored_world_def new_world_def always_ok_def)
  have p: "JSON_parse snapshot_A = Parsed (json_of_graph graph_A)"
    unfolding snapshot_A_def using graph_A_ordered graph_A_exact by (rule stringify_graph_parses)
  have g: "graph_of_json (json_of_graph graph_A) = Some graph_A"
    by (simp add: graph_of_json_of_graph[OF graph_A_exact] graph_A_proto)
  have a: "\<exists>w'. constructor None always_ok example_clock = Loaded (Inr (), w')
        \<and> memory w' = empty_graph
        \<and> disk w' = Some ''{\<newline>  \"entities\": {},\<newline>  \"relations\": [],\<newline>  \"observations\": {}\<newline>}''"
    using t1 by (simp add: always_ok_def)
  have b: "\<exists>w'. constructor (Some ''not json'') always_ok example_clock = Loaded (Inr (), w')
        \<and> memory w' = empty_graph
        \<and> disk w' = Some ''{\<newline>  \"entities\": {},\<newline>  \"relations\": [],\<newline>  \"observations\": {}\<newline>}''"
    using t2 not_json by (simp add: always_ok_def)
  have c: "loadMemory (stored_world snapshot_A) =
       Loaded (Inr (), (stored_world snapshot_A)\<lparr>io_count := Suc (io_count (stored_world snapshot_A)),
                                                 memory := graph_A\<rparr>)"
    using t1 2 p g by simp
  show ?thesis
    using a b c 2 p not_json by blast
qed

text \<open>
  Claim C7 as stated fails when the write fails as well: with no file and a file system
  that refuses every call, the constructor ends with the empty graph in memory and no
  file.
\<close>

theorem load_and_save_both_fail_counterexample:
  "map_option disk (loaded_world (constructor None never_ok example_clock)) = Some None
   \<and> map_option memory (loaded_world (constructor None never_ok example_clock)) = Some empty_graph"
proof -
  let ?w = "new_world None never_ok example_clock"
  have "io ?w (io_count ?w) \<noteq> IoOk \<or> disk ?w = None
       \<or> (\<exists>text. disk ?w = Some text \<and> JSON_parse text = Invalid)"
    by (simp add: new_world_def)
  from loadMemory_failure[OF this] show ?thesis
    by (simp add: constructor_def loaded_world_def saveMemory_eq)
       (simp add: new_world_def never_ok_def)
qed



section \<open>Search and read-out\<close>

subsection \<open>lower case\<close>





subsection \<open>the objects of a search result\<close>









subsection \<open>search\<close>





subsection \<open>read-out\<close>

lemma show_nat_Suc:
  "show_nat (Suc (Suc 0)) = ''2''" "show_nat (Suc (Suc (Suc 0))) = ''3''"
  "show_nat (Suc (Suc (Suc (Suc 0)))) = ''4''"
  by (simp_all add: show_nat.simps digit_def)

lemma readGraph_example:
  "readGraph (example_world graph_P) =
       (Inr (''Knowledge Graph Contents:\<newline>'' @
             ''\<newline>'' @
             ''Statistics:\<newline>'' @
             ''{\<newline>'' @
             ''  \"entities\": 3,\<newline>'' @
             ''  \"relations\": 2,\<newline>'' @
             ''  \"totalObservations\": 4\<newline>'' @
             ''}\<newline>'' @
             ''\<newline>'' @
             ''Full Graph:\<newline>'' @
             ''{\<newline>'' @
             ''  \"entities\": {\<newline>'' @
             ''    \"7\": {\<newline>'' @
             ''      \"name\": \"7\",\<newline>'' @
             ''      \"entityType\": \"number\",\<newline>'' @
             ''      \"observations\": [\<newline>'' @
             ''        \"prime\",\<newline>'' @
             ''        \"odd\"\<newline>'' @
             ''      ],\<newline>'' @
             ''      \"createdAt\": \"2024-01-03T00:00:00.000Z\"\<newline>'' @
             ''    },\<newline>'' @
             ''    \"Paris\": {\<newline>'' @
             ''      \"name\": \"Paris\",\<newline>'' @
             ''      \"entityType\": \"city\",\<newline>'' @
             ''      \"observations\": [\<newline>'' @
             ''        \"Capital of FRANCE\",\<newline>'' @
             ''        \"Twinned with ROME\"\<newline>'' @
             ''      ],\<newline>'' @
             ''      \"createdAt\": \"2024-01-01T00:00:00.000Z\"\<newline>'' @
             ''    },\<newline>'' @
             ''    \"Rome\": {\<newline>'' @
             ''      \"name\": \"Rome\",\<newline>'' @
             ''      \"entityType\": \"city\",\<newline>'' @
             ''      \"observations\": [],\<newline>'' @
             ''      \"createdAt\": \"2024-01-02T00:00:00.000Z\"\<newline>'' @
             ''    }\<newline>'' @
             ''  },\<newline>'' @
             ''  \"relations\": [\<newline>'' @
             ''    {\<newline>'' @
             ''      \"to\": \"Rome\",\<newline>'' @
             ''      \"relationType\": \"twin of\",\<newline>'' @
             ''      \"from\": \"Paris\",\<newline>'' @
             ''      \"since\": 1956,\<newline>'' @
             ''      \"createdAt\": \"2024-01-04T00:00:00.000Z\"\<newline>'' @
             ''    },\<newline>'' @
             ''    {\<newline>'' @
             ''      \"from\": \"Rome\",\<newline>'' @
             ''      \"to\": \"Lazio\",\<newline>'' @
             ''      \"relationType\": \"capital of\",\<newline>'' @
             ''      \"createdAt\": \"2024-01-05T00:00:00.000Z\"\<newline>'' @
             ''    }\<newline>'' @
             ''  ],\<newline>'' @
             ''  \"observations\": {}\<newline>'' @
             ''}''), example_world graph_P)"
  by (simp add: readGraph_def graph_text_def graph_stats_def foldl_sum_lengths Object_keys_def
      Object_values_def show_nat_Suc JSON_stringify_def json_of_graph_def
      json_of_entity_def json_of_relation_def example_world_def graph_P_def entity_7_def
      entity_Paris_def entity_Rome_def relation_twin_def relation_capital_def quote_string_def
      escape_unit_def gap_def)

text \<open>
  Claim C8. \<open>readGraph\<close> reports the number of keys of the entities object, the length of
  the relations sequence and the sum of the lengths of all observation lists, followed by
  the whole graph: every entity under its key with its four fields, every relation with
  the properties it was stored with, and the empty observations object, which is the
  value \<open>saveMemory\<close> writes to the file. With two entities of 3 and 1 observations and
  4 relations the statistics read entities 2, relations 4, totalObservations 4.
\<close>

theorem readGraph_statistics:
  "(let stats =
          JObj [(''entities'', JNum (show_nat (length (Object_keys (entities (memory w)))))),
                (''relations'', JNum (show_nat (length (relations (memory w))))),
                (''totalObservations'',
                   JNum (show_nat (sum_list (map (\<lambda>e. length (observations e))
                                              (Object_values (entities (memory w)))))))];
        snapshot =
          JObj [(''entities'',
                   JObj (map (\<lambda>kv. (fst kv,
                                     JObj [(''name'', JStr (name (snd kv))),
                                           (''entityType'', JStr (entityType (snd kv))),
                                           (''observations'', JArr (map JStr (observations (snd kv)))),
                                           (''createdAt'', JStr (createdAt (snd kv)))]))
                           (Object_entries (entities (memory w))))),
                (''relations'', JArr (map JObj (relations (memory w)))),
                (''observations'', JObj [])];
        text =
          ''Knowledge Graph Contents:'' @ [CHR 0x0A, CHR 0x0A] @ ''Statistics:'' @ [CHR 0x0A]
            @ JSON_stringify stats @ [CHR 0x0A, CHR 0x0A] @ ''Full Graph:'' @ [CHR 0x0A]
            @ JSON_stringify snapshot
    in readGraph w = (Inr text, w)
       \<and> Simple_readGraph w = (Inr (Content text), w)
       \<and> json_of_graph (memory w) = snapshot
       \<and> (io w (io_count w) = IoOk \<longrightarrow>
            disk (snd (saveMemory w)) = Some (JSON_stringify snapshot)))
   \<and> (Object_values (entities (memory w)) = [e1, e2] \<and> length (observations e1) = 3
        \<and> length (observations e2) = 1 \<and> length (relations (memory w)) = 4
      \<longrightarrow> readGraph w =
            (Inr (''Knowledge Graph Contents:'' @ [CHR 0x0A, CHR 0x0A] @ ''Statistics:'' @ [CHR 0x0A]
                  @ ''{\<newline>  \"entities\": 2,\<newline>  \"relations\": 4,\<newline>  \"totalObservations\": 4\<newline>}''
                  @ [CHR 0x0A, CHR 0x0A] @ ''Full Graph:'' @ [CHR 0x0A]
                  @ JSON_stringify (json_of_graph (memory w))), w))
   \<and> readGraph (example_world graph_P) =
       (Inr (''Knowledge Graph Contents:\<newline>'' @
             ''\<newline>'' @
             ''Statistics:\<newline>'' @
             ''{\<newline>'' @
             ''  \"entities\": 3,\<newline>'' @
             ''  \"relations\": 2,\<newline>'' @
             ''  \"totalObservations\": 4\<newline>'' @
             ''}\<newline>'' @
             ''\<newline>'' @
             ''Full Graph:\<newline>'' @
             ''{\<newline>'' @
             ''  \"entities\": {\<newline>'' @
             ''    \"7\": {\<newline>'' @
             ''      \"name\": \"7\",\<newline>'' @
             ''      \"entityType\": \"number\",\<newline>'' @
             ''      \"observations\": [\<newline>'' @
             ''        \"prime\",\<newline>'' @
             ''        \"odd\"\<newline>'' @
             ''      ],\<newline>'' @
             ''      \"createdAt\": \"2024-01-03T00:00:00.000Z\"\<newline>'' @
             ''    },\<newline>'' @
             ''    \"Paris\": {\<newline>'' @
             ''      \"name\": \"Paris\",\<newline>'' @
             ''      \"entityType\": \"city\",\<newline>'' @
             ''      \"observations\": [\<newline>'' @
             ''        \"Capital of FRANCE\",\<newline>'' @
             ''        \"Twinned with ROME\"\<newline>'' @
             ''      ],\<newline>'' @
             ''      \"createdAt\": \"2024-01-01T00:00:00.000Z\"\<newline>'' @
             ''    },\<newline>'' @
             ''    \"Rome\": {\<newline>'' @
             ''      \"name\": \"Rome\",\<newline>'' @
             ''      \"entityType\": \"city\",\<newline>'' @
             ''      \"observations\": [],\<newline>'' @
             ''      \"createdAt\": \"2024-01-02T00:00:00.000Z\"\<newline>'' @
             ''    }\<newline>'' @
             ''  },\<newline>'' @
             ''  \"relations\": [\<newline>'' @
             ''    {\<newline>'' @
             ''      \"to\": \"Rome\",\<newline>'' @
             ''      \"relationType\": \"twin of\",\<newline>'' @
             ''      \"from\": \"Paris\",\<newline>'' @
             ''      \"since\": 1956,\<newline>'' @
             ''      \"createdAt\": \"2024-01-04T00:00:00.000Z\"\<newline>'' @
             ''    },\<newline>'' @
             ''    {\<newline>'' @
             ''      \"from\": \"Rome\",\<newline>'' @
             ''      \"to\": \"Lazio\",\<newline>'' @
             ''      \"relationType\": \"capital of\",\<newline>'' @
             ''      \"createdAt\": \"2024-01-05T00:00:00.000Z\"\<newline>'' @
             ''    }\<newline>'' @
             ''  ],\<newline>'' @
             ''  \"observations\": {}\<newline>'' @
             ''}''), example_world graph_P)"
proof -
  have j: "json_of_graph (memory w) =
          JObj [(''entities'',
                   JObj (map (\<lambda>kv. (fst kv,
                                     JObj [(''name'', JStr (name (snd kv))),
                                           (''entityType'', JStr (entityType (snd kv))),
                                           (''observations'', JArr (map JStr (observations (snd kv)))),
                                           (''createdAt'', JStr (createdAt (snd kv)))]))
                           (Object_entries (entities (memory w))))),
                (''relations'', JArr (map JObj (relations (memory w)))),
                (''observations'', JObj [])]"
    by (simp add: json_of_graph_def json_of_entity_def json_of_relation_def[abs_def]
        Object_entries_def)
  have s: "graph_stats (memory w) =
          JObj [(''entities'', JNum (show_nat (length (Object_keys (entities (memory w)))))),
                (''relations'', JNum (show_nat (length (relations (memory w))))),
                (''totalObservations'',
                   JNum (show_nat (sum_list (map (\<lambda>e. length (observations e))
                                              (Object_values (entities (memory w)))))))]"
    by (simp add: graph_stats_def foldl_sum_lengths)
  have d: "disk (snd (saveMemory w)) = Some (JSON_stringify (json_of_graph (memory w)))"
    if "io w (io_count w) = IoOk"
    using that by (simp add: saveMemory_eq)
  have a: "(let stats =
          JObj [(''entities'', JNum (show_nat (length (Object_keys (entities (memory w)))))),
                (''relations'', JNum (show_nat (length (relations (memory w))))),
                (''totalObservations'',
                   JNum (show_nat (sum_list (map (\<lambda>e. length (observations e))
                                              (Object_values (entities (memory w)))))))];
        snapshot =
          JObj [(''entities'',
                   JObj (map (\<lambda>kv. (fst kv,
                                     JObj [(''name'', JStr (name (snd kv))),
                                           (''entityType'', JStr (entityType (snd kv))),
                                           (''observations'', JArr (map JStr (observations (snd kv)))),
                                           (''createdAt'', JStr (createdAt (snd kv)))]))
                           (Object_entries (entities (memory w))))),
                (''relations'', JArr (map JObj (relations (memory w)))),
                (''observations'', JObj [])];
        text =
          ''Knowledge Graph Contents:'' @ [CHR 0x0A, CHR 0x0A] @ ''Statistics:'' @ [CHR 0x0A]
            @ JSON_stringify stats @ [CHR 0x0A, CHR 0x0A] @ ''Full Graph:'' @ [CHR 0x0A]
            @ JSON_stringify snapshot
    in readGraph w = (Inr text, w)
       \<and> Simple_readGraph w = (Inr (Content text), w)
       \<and> json_of_graph (memory w) = snapshot
       \<and> (io w (io_count w) = IoOk \<longrightarrow>
            disk (snd (saveMemory w)) = Some (JSON_stringify snapshot)))"
    unfolding Let_def j[symmetric] s[symmetric]
    using d by (simp add: readGraph_def Simple_readGraph_def graph_text_def)
  have ex: "readGraph w =
            (Inr (''Knowledge Graph Contents:'' @ [CHR 0x0A, CHR 0x0A] @ ''Statistics:'' @ [CHR 0x0A]
                  @ ''{\<newline>  \"entities\": 2,\<newline>  \"relations\": 4,\<newline>  \"totalObservations\": 4\<newline>}''
                  @ [CHR 0x0A, CHR 0x0A] @ ''Full Graph:'' @ [CHR 0x0A]
                  @ JSON_stringify (json_of_graph (memory w))), w)"
    if h: "Object_values (entities (memory w)) = [e1, e2]" "length (observations e1) = 3"
       "length (observations e2) = 1" "length (relations (memory w)) = 4"
  proof -
    have "length (Object_keys (entities (memory w))) = length (Object_values (entities (memory w)))"
      by (simp add: Object_keys_def Object_values_def)
    then have "length (Object_keys (entities (memory w))) = 2"
      using h(1) by simp
    then have "JSON_stringify (graph_stats (memory w)) =
                 ''{\<newline>  \"entities\": 2,\<newline>  \"relations\": 4,\<newline>  \"totalObservations\": 4\<newline>}''"
      using h
      by (simp add: graph_stats_def foldl_sum_lengths show_nat_small JSON_stringify_def
          quote_string_def escape_unit_def gap_def)
    then show ?thesis
      by (simp add: readGraph_def graph_text_def)
  qed
  show ?thesis
    using a ex readGraph_example by blast
qed

theorem readGraph_statistics_witness:
  "Object_values (entities (memory (example_world graph_AB))) = [entity_B, entity_A]
   \<and> length (observations entity_B) = 3 \<and> length (observations entity_A) = 1
   \<and> length (relations (memory (example_world graph_AB))) = 4
   \<and> io (example_world graph_AB) (io_count (example_world graph_AB)) = IoOk
   \<and> disk (snd (saveMemory (example_world graph_AB))) = Some (JSON_stringify (json_of_graph graph_AB))
   \<and> readGraph (example_world graph_AB) =
            (Inr (''Knowledge Graph Contents:'' @ [CHR 0x0A, CHR 0x0A] @ ''Statistics:'' @ [CHR 0x0A]
                  @ ''{\<newline>  \"entities\": 2,\<newline>  \"relations\": 4,\<newline>  \"totalObservations\": 4\<newline>}''
                  @ [CHR 0x0A, CHR 0x0A] @ ''Full Graph:'' @ [CHR 0x0A]
                  @ JSON_stringify (json_of_graph (memory (example_world graph_AB)))), (example_world graph_AB))"
proof -
  have h: "Object_values (entities (memory (example_world graph_AB))) = [entity_B, entity_A]"
    "length (observations entity_B) = 3" "length (observations entity_A) = 1"
    "length (relations (memory (example_world graph_AB))) = 4"
    "io (example_world graph_AB) (io_count (example_world graph_AB)) = IoOk"
    by (simp_all add: example_world_def graph_AB_def Object_values_def entity_A_def entity_B_def)
  note t = readGraph_statistics[of "example_world graph_AB" entity_B entity_A]
  have m: "memory (example_world graph_AB) = graph_AB"
    by (simp add: example_world_def)
  have 1: "readGraph (example_world graph_AB) =
            (Inr (''Knowledge Graph Contents:'' @ [CHR 0x0A, CHR 0x0A] @ ''Statistics:'' @ [CHR 0x0A]
                  @ ''{\<newline>  \"entities\": 2,\<newline>  \"relations\": 4,\<newline>  \"totalObservations\": 4\<newline>}''
                  @ [CHR 0x0A, CHR 0x0A] @ ''Full Graph:'' @ [CHR 0x0A]
                  @ JSON_stringify (json_of_graph (memory (example_world graph_AB)))), (example_world graph_AB))"
    using t h by blast
  have "json_of_graph (memory (example_world graph_AB)) = json_of_graph graph_AB"
    by (simp add: m)
  moreover have "disk (snd (saveMemory (example_world graph_AB)))
       = Some (JSON_stringify (json_of_graph (memory (example_world graph_AB))))"
    using t h(5) unfolding Let_def by metis
  ultimately have 2: "disk (snd (saveMemory (example_world graph_AB)))
       = Some (JSON_stringify (json_of_graph graph_AB))"
    by simp
  show ?thesis
    using h 1 2 by blast
qed



section \<open>The WebSocket listener\<close>

lemmas lexer_defs = JSON_parse_def start_char_def is_whitespace_def is_digit_def emit_def
  num_step_def num_final_def build_object_def define_own_def has_own_def array_index_def

lemma null_message: "JSON_parse ''null'' = Parsed JNull"
  by (simp add: lexer_defs)

lemma list_message:
  "JSON_parse ''{\"jsonrpc\":\"2.0\",\"id\":1,\"method\":\"tools/list\"}''
     = Parsed (JObj [(''jsonrpc'', JStr ''2.0''), (''id'', JNum ''1''),
                     (''method'', JStr ''tools/list'')])"
  by (simp add: lexer_defs)

lemma unknown_tool_message:
  "JSON_parse ''{\"id\":\"a\",\"method\":\"tools/call\",\"params\":{\"name\":\"delete_entities\",\"arguments\":{}}}''
     = Parsed (JObj [(''id'', JStr ''a''), (''method'', JStr ''tools/call''),
                     (''params'', JObj [(''name'', JStr ''delete_entities''),
                                        (''arguments'', JObj [])])])"
  by (simp add: lexer_defs)

lemma catch_block_throws:
  "try_catch (throw e) catch_block w = (Inl (ReferenceError ''request''), w)"
  by (simp add: try_catch_def throw_def catch_block_def)

lemma on_message_invalid:
  "JSON_parse data = Invalid \<or> JSON_parse data = Parsed JNull \<Longrightarrow>
   on_message wording data w = Handled (Inl (ReferenceError ''request''), w)"
  by (auto simp: on_message_def catch_block_throws)

lemma on_message_request:
  assumes "JSON_parse data = Parsed v" "rpc_request_of v = Some rpc"
  shows "\<exists>response w'. handleRequest wording rpc w = (Inr response, w')
           \<and> on_message wording data w
               = Handled (Inr \<lparr>reply_id = own_field v ''id'', reply_result = response\<rparr>, w')"
proof -
  obtain response w' where h: "handleRequest wording rpc w = (Inr response, w')"
    using handleRequest_total by blast
  have "v \<noteq> JNull"
    using assms(2) by (auto simp: rpc_request_of_def own_field_def)
  then show ?thesis
    using assms h by (simp add: on_message_def try_catch_def bind_def return_def)
qed

lemma list_request:
  "rpc_request_of (JObj [(''jsonrpc'', JStr ''2.0''), (''id'', JNum ''1''),
                         (''method'', JStr ''tools/list'')])
     = Some \<lparr>rpc_method = ''tools/list'', rpc_params = None\<rparr>"
  by (simp add: rpc_request_of_def own_field_def optional_def)

lemma unknown_tool_request:
  "rpc_request_of (JObj [(''id'', JStr ''a''), (''method'', JStr ''tools/call''),
                     (''params'', JObj [(''name'', JStr ''delete_entities''),
                                        (''arguments'', JObj [])])])
     = Some \<lparr>rpc_method = ''tools/call'',
             rpc_params = Some \<lparr>tool_name = ''delete_entities'', arguments = Some no_arguments\<rparr>\<rparr>"
  by (simp add: rpc_request_of_def request_of_def tool_arguments_of_def own_field_def
      optional_def no_arguments_def)

text \<open>
  Claim C5 (a defect of the code). Every request that reaches \<open>callTool\<close> or
  \<open>handleRequest\<close> is answered, and so is a WebSocket message that denotes a request, an
  unknown tool being answered with an error text that carries its name. A message that
  is not JSON, or that is the JSON text \<open>null\<close>, is not answered: the \<open>catch\<close> block of
  the listener reads \<open>request.id\<close>, a variable declared inside the \<open>try\<close> block, so a
  ReferenceError leaves the listener before anything is sent.
\<close>

theorem malformed_message_is_not_answered:
  "JSON_parse ''not json'' = Invalid
   \<and> on_message wording ''not json'' w = Handled (Inl (ReferenceError ''request''), w)
   \<and> JSON_parse ''null'' = Parsed JNull
   \<and> on_message wording ''null'' w = Handled (Inl (ReferenceError ''request''), w)
   \<and> on_message wording ''{\"jsonrpc\":\"2.0\",\"id\":1,\"method\":\"tools/list\"}'' w
       = Handled (Inr \<lparr>reply_id = Some (JNum ''1''), reply_result = ToolList\<rparr>, w)
   \<and> on_message wording
         ''{\"id\":\"a\",\"method\":\"tools/call\",\"params\":{\"name\":\"delete_entities\",\"arguments\":{}}}'' w
       = Handled (Inr \<lparr>reply_id = Some (JStr ''a''),
                       reply_result = ErrorMessage ''Unknown tool: delete_entities''\<rparr>, w)
   \<and> (\<exists>response w'. handleRequest wording rpc w = (Inr response, w'))
   \<and> (\<exists>response w'. callTool wording req w = (Inr response, w'))"
proof -
  have a: "on_message wording ''not json'' w = Handled (Inl (ReferenceError ''request''), w)"
    using not_json by (intro on_message_invalid) simp
  have b: "on_message wording ''null'' w = Handled (Inl (ReferenceError ''request''), w)"
    using null_message by (intro on_message_invalid) simp
  have c: "on_message wording ''{\"jsonrpc\":\"2.0\",\"id\":1,\"method\":\"tools/list\"}'' w
       = Handled (Inr \<lparr>reply_id = Some (JNum ''1''), reply_result = ToolList\<rparr>, w)"
    by (simp add: on_message_def list_message list_request handleRequest_def try_catch_def
        bind_def return_def own_field_def del: lex.simps)
  have d: "on_message wording
         ''{\"id\":\"a\",\"method\":\"tools/call\",\"params\":{\"name\":\"delete_entities\",\"arguments\":{}}}'' w
       = Handled (Inr \<lparr>reply_id = Some (JStr ''a''),
                       reply_result = ErrorMessage ''Unknown tool: delete_entities''\<rparr>, w)"
    by (simp add: on_message_def unknown_tool_message unknown_tool_request handleRequest_def
        handleToolCall_def try_catch_def bind_def return_def throw_def message_def own_field_def
        del: lex.simps)
  show ?thesis
    using a b c d not_json null_message handleRequest_total[of wording rpc w]
      callTool_total[of wording req w]
    by blast
qed

end
